theory Spec2Isabelle
  imports Complex_Main
begin

text \<open>
  A model of \<open>bot.js\<close>, the monitor of token transfers on the BASE chain that reports to
  a Telegram chat: the numbers and strings of JavaScript as far as the program uses them,
  then the program's functions (\<open>formatAmount\<close>, \<open>formatTransaction\<close>,
  \<open>sendNotification\<close>, \<open>checkTransactions\<close>, \<open>init\<close> and the command handlers) over an
  explicit state, and the properties claimed of them. The explorer, the messaging channel
  and the clock are parameters. The repository's second copy of the program, an earlier
  version without blacklist, threshold and start-up pass, is not modelled.
\<close>

section \<open>JavaScript numbers\<close>

text \<open>
  A JavaScript Number is an IEEE 754 double. The finite doubles are rationals, so a
  number is modelled as \<open>NaN\<close>, one of the two infinities, or \<open>Fin q\<close> with \<open>q\<close> the exact
  value of the double. Negative zero is identified with zero: the program never divides
  by a value that can be negative zero, and \<open>toFixed\<close> and every comparison treat the two
  zeros alike.
\<close>

datatype jsnum = NaN | PInf | NInf | Fin rat

fun js_neg :: "jsnum \<Rightarrow> jsnum" where
  "js_neg NaN = NaN"
| "js_neg PInf = NInf"
| "js_neg NInf = PInf"
| "js_neg (Fin q) = Fin (- q)"

text \<open>\<open>a < b\<close> of JavaScript: false as soon as one side is \<open>NaN\<close>.\<close>

fun js_lt :: "jsnum \<Rightarrow> jsnum \<Rightarrow> bool" where
  "js_lt NaN _ = False"
| "js_lt _ NaN = False"
| "js_lt (Fin a) (Fin b) = (a < b)"
| "js_lt NInf NInf = False"
| "js_lt NInf _ = True"
| "js_lt _ NInf = False"
| "js_lt PInf _ = False"
| "js_lt _ PInf = True"

definition js_gt :: "jsnum \<Rightarrow> jsnum \<Rightarrow> bool" where
  "js_gt a b = js_lt b a"

text \<open>\<open>a >= b\<close> and \<open>a <= b\<close> of JavaScript; again false on \<open>NaN\<close>.\<close>

definition js_ge :: "jsnum \<Rightarrow> jsnum \<Rightarrow> bool" where
  "js_ge a b = (a \<noteq> NaN \<and> b \<noteq> NaN \<and> \<not> js_lt a b)"

definition js_le :: "jsnum \<Rightarrow> jsnum \<Rightarrow> bool" where
  "js_le a b = js_ge b a"

text \<open>Truthiness of a number, as \<open>||\<close> and \<open>if\<close> read it: \<open>NaN\<close> and zero are falsy.\<close>

definition js_truthy_num :: "jsnum \<Rightarrow> bool" where
  "js_truthy_num a = (a \<noteq> NaN \<and> a \<noteq> Fin 0)"

subsection \<open>Rounding to the nearest double\<close>

text \<open>The number of binary digits of a positive integer (0 for the others).\<close>

function bits :: "int \<Rightarrow> int" where
  "bits n = (if n \<le> 0 then 0 else 1 + bits (n div 2))"
  by pat_completeness auto
termination
proof (relation "measure nat")
  show "wf (measure nat)" by simp
next
  fix n :: int
  assume pos: "\<not> n \<le> 0"
  then have "n div 2 < n" by simp
  with pos show "(n div 2, n) \<in> measure nat" by simp
qed

declare bits.simps [simp del]

text \<open>
  For \<open>p, q > 0\<close>, the exponent \<open>e\<close> with \<open>2^e \<le> p / q < 2^(e+1)\<close>: the difference \<open>d\<close> of
  the bit lengths, or one less.
\<close>

definition floor_log2 :: "int \<Rightarrow> int \<Rightarrow> int" where
  "floor_log2 p q =
     (let d = bits p - bits q in
      if (if 0 \<le> d then q * 2 ^ nat d \<le> p else q \<le> p * 2 ^ nat (- d)) then d else d - 1)"

text \<open>
  The double nearest to \<open>p / q\<close> (\<open>p, q > 0\<close>): round to nearest, ties to even, with a
  53-bit significand, that is in units of \<open>2^t\<close> with \<open>t = e - 52\<close>; below \<open>2^-1022\<close> the
  unit stays \<open>2^-1074\<close> (subnormals), and a result of \<open>2^1024\<close> or more is infinite.
\<close>

definition round_ratio :: "int \<Rightarrow> int \<Rightarrow> jsnum" where
  "round_ratio p q =
     (let t = max (floor_log2 p q) (- 1022) - 52;
          num = (if 0 \<le> t then p else p * 2 ^ nat (- t));
          den = (if 0 \<le> t then q * 2 ^ nat t else q);
          f = num div den;
          r = num mod den;
          n = (if 2 * r < den then f
               else if den < 2 * r then f + 1
               else if even f then f
               else f + 1)
      in if 0 \<le> t then (if 2 ^ 1024 \<le> n * 2 ^ nat t then PInf else Fin (of_int (n * 2 ^ nat t)))
         else Fin (Fract n (2 ^ nat (- t))))"

text \<open>The double nearest to a rational, read as numerator and denominator.\<close>

definition fl :: "rat \<Rightarrow> jsnum" where
  "fl x =
     (case quotient_of x of
        (p, q) \<Rightarrow>
          if p = 0 then Fin 0
          else if 0 < p then round_ratio p q
          else js_neg (round_ratio (- p) q))"

text \<open>
  \<open>a / b\<close> on doubles. The two zeros being one, a zero divisor is read as \<open>+0\<close>; the
  divisors of this program are the positive constants \<open>1e3\<close>, \<open>1e6\<close>, \<open>1e9\<close> and
  powers of ten, which are never \<open>-0\<close>.
\<close>

fun js_div :: "jsnum \<Rightarrow> jsnum \<Rightarrow> jsnum" where
  "js_div NaN _ = NaN"
| "js_div _ NaN = NaN"
| "js_div (Fin a) (Fin b) =
     (if b = 0 then (if a = 0 then NaN else if 0 < a then PInf else NInf)
      else fl (a / b))"
| "js_div (Fin a) _ = Fin 0"
| "js_div PInf (Fin b) = (if 0 \<le> b then PInf else NInf)"
| "js_div NInf (Fin b) = (if 0 \<le> b then NInf else PInf)"
| "js_div _ _ = NaN"

text \<open>
  \<open>Math.pow(10, d)\<close> for the values \<open>d\<close> that \<open>parseInt\<close> returns (integers, the
  infinities, \<open>NaN\<close>). For \<open>0 \<le> d \<le> 22\<close> the power is itself a double, and that double
  is the result. Outside this range the language leaves the result to the engine
  (an approximation of the power, not always the nearest double), so the model takes the
  engine's \<open>Math.pow(10, d)\<close> for these \<open>d\<close> as a parameter \<open>engine\<close>.
\<close>

fun pow10 :: "(int \<Rightarrow> jsnum) \<Rightarrow> jsnum \<Rightarrow> jsnum" where
  "pow10 engine NaN = NaN"
| "pow10 engine PInf = PInf"
| "pow10 engine NInf = Fin 0"
| "pow10 engine (Fin d) =
     (if 0 \<le> d \<and> d \<le> 22 then Fin (of_int (10 ^ nat \<lfloor>d\<rfloor>)) else engine \<lfloor>d\<rfloor>)"

text \<open>An engine whose \<open>Math.pow(10, d)\<close> is the double nearest to the power, for the examples.\<close>

definition nearest_pow10 :: "int \<Rightarrow> jsnum" where
  "nearest_pow10 d = (if 0 \<le> d then fl (of_int (10 ^ nat d)) else fl (Fract 1 (10 ^ nat (- d))))"

text \<open>\<open>Math.max(...xs)\<close>: \<open>-Infinity\<close> for no argument, \<open>NaN\<close> as soon as one argument is.\<close>

fun js_max2 :: "jsnum \<Rightarrow> jsnum \<Rightarrow> jsnum" where
  "js_max2 NaN _ = NaN"
| "js_max2 _ NaN = NaN"
| "js_max2 a b = (if js_lt a b then b else a)"

definition Math_max :: "jsnum list \<Rightarrow> jsnum" where
  "Math_max xs = foldl js_max2 NInf xs"

section \<open>JavaScript strings\<close>

text \<open>
  A string is a list of code units below 256 (the Latin-1 range of the language's 16-bit
  code units); the addresses, numbers and commands of this program are ASCII, and strings
  with a code unit from 256 on are outside the model. In this range \<open>toLowerCase\<close> changes
  the letters \<open>A\<close> to \<open>Z\<close> and the accented capitals \<open>U+00C0\<close> to \<open>U+00DE\<close> (all but the
  multiplication sign \<open>U+00D7\<close>), and white space is tab, line feed, vertical tab, form
  feed, carriage return, space and the no-break space \<open>U+00A0\<close>.
\<close>

definition lower_char :: "char \<Rightarrow> char" where
  "lower_char c =
     (let n = (of_char c :: int) in
      if (65 \<le> n \<and> n \<le> 90) \<or> (192 \<le> n \<and> n \<le> 222 \<and> n \<noteq> 215) then char_of (n + 32) else c)"

definition toLowerCase :: "string \<Rightarrow> string" where
  "toLowerCase s = map lower_char s"

definition is_space :: "char \<Rightarrow> bool" where
  "is_space c = (let n = (of_char c :: int) in (9 \<le> n \<and> n \<le> 13) \<or> n = 32 \<or> n = 160)"

definition trim :: "string \<Rightarrow> string" where
  "trim s = rev (dropWhile is_space (rev (dropWhile is_space s)))"

text \<open>The value of a character as a digit (up to radix 16), if it is one.\<close>

definition digit_val :: "char \<Rightarrow> int option" where
  "digit_val c =
     (let n = (of_char c :: int) in
      if 48 \<le> n \<and> n \<le> 57 then Some (n - 48)
      else if 97 \<le> n \<and> n \<le> 102 then Some (n - 87)
      else if 65 \<le> n \<and> n \<le> 70 then Some (n - 55)
      else None)"

definition is_digit :: "int \<Rightarrow> char \<Rightarrow> bool" where
  "is_digit radix c = (case digit_val c of None \<Rightarrow> False | Some d \<Rightarrow> d < radix)"

definition digits_value :: "int \<Rightarrow> string \<Rightarrow> int" where
  "digits_value radix z =
     foldl (\<lambda>acc c. acc * radix + (case digit_val c of None \<Rightarrow> 0 | Some d \<Rightarrow> d)) 0 z"

text \<open>
  \<open>parseInt(s)\<close> with no radix: leading white space is dropped, then a sign, then a
  \<open>0x\<close> prefix (which selects radix 16); the longest run of digits is read, and the
  result is \<open>NaN\<close> when that run is empty. The integer read is rounded to a double (the
  exact integer: the language lets an engine round from the first 20 digits instead).
\<close>

definition parseInt :: "string \<Rightarrow> jsnum" where
  "parseInt s =
     (let s0 = dropWhile is_space s;
          negative = (s0 \<noteq> [] \<and> hd s0 = CHR ''-'');
          s1 = (if s0 \<noteq> [] \<and> (hd s0 = CHR ''+'' \<or> hd s0 = CHR ''-'') then tl s0 else s0);
          hex = (take 2 s1 = ''0x'' \<or> take 2 s1 = ''0X'');
          radix = (if hex then 16 else 10);
          s2 = (if hex then drop 2 s1 else s1);
          z = takeWhile (is_digit radix) s2
      in if z = [] then NaN
         else fl (of_int ((if negative then - 1 else 1) * digits_value radix z)))"

text \<open>The test of \<open>/^0x[a-f0-9]{40}$/i\<close>.\<close>

definition is_hex :: "char \<Rightarrow> bool" where
  "is_hex c = (digit_val c \<noteq> None)"

definition address_regex_test :: "string \<Rightarrow> bool" where
  "address_regex_test s =
     (length s = 42 \<and> (take 2 s = ''0x'' \<or> take 2 s = ''0X'') \<and> list_all is_hex (drop 2 s))"

subsection \<open>Numbers as text\<close>

definition digit_char :: "int \<Rightarrow> char" where
  "digit_char d = char_of (48 + d)"

text \<open>The decimal digits of a non-negative integer.\<close>

function dec :: "int \<Rightarrow> string" where
  "dec n = (if n < 10 then [digit_char (max n 0)] else dec (n div 10) @ [digit_char (n mod 10)])"
  by pat_completeness auto
termination
proof (relation "measure nat")
  show "wf (measure nat)" by simp
next
  fix n :: int
  assume big: "\<not> n < 10"
  then have "n div 10 < n" by simp
  with big show "(n div 10, n) \<in> measure nat" by simp
qed

declare dec.simps [simp del]

text \<open>
  \<open>Number::toString\<close> for a finite \<open>a \<ge> 1e21\<close> (such a double is an integer): the
  shortest decimal \<open>s * 10^(n-k)\<close>, of \<open>k\<close> digits, that rounds to \<open>a\<close>, written in
  exponential notation, as the language prescribes for \<open>n > 21\<close> integer digits.
  With \<open>n0\<close> the number of digits of \<open>a\<close>, \<open>shortest_digits\<close> looks for \<open>s\<close> at a given \<open>k\<close>
  among the two neighbours \<open>lo * 10^(n0-k) \<le> a < (lo + 1) * 10^(n0-k)\<close> and prefers the
  nearer one. When the upper neighbour is \<open>10^k * 10^(n0-k)\<close> it has one digit more than
  \<open>a\<close>: then \<open>s\<close> is \<open>10^(k-1)\<close> and \<open>n\<close> is \<open>n0 + 1\<close> (the double nearest to \<open>1e23\<close> lies below
  \<open>1e23\<close> and is printed \<open>1e+23\<close>).
\<close>

definition rounds_to :: "int \<Rightarrow> int \<Rightarrow> int \<Rightarrow> bool" where
  "rounds_to a p s = (fl (of_int (s * p)) = Fin (of_int a))"

definition nearer :: "int \<Rightarrow> int \<Rightarrow> int \<Rightarrow> int \<Rightarrow> int" where
  "nearer a p lo hi =
     (if a - lo * p < hi * p - a then lo
      else if hi * p - a < a - lo * p then hi
      else if even lo then lo
      else hi)"

definition shortest_digits :: "int \<Rightarrow> nat \<Rightarrow> nat \<Rightarrow> (int \<times> nat) option" where
  "shortest_digits a n0 k =
     (let p = 10 ^ (n0 - k); lo = a div p; hi = lo + 1;
          ok_lo = (10 ^ (k - 1) \<le> lo \<and> rounds_to a p lo);
          ok_hi = rounds_to a p hi;
          s = (if ok_lo then (if ok_hi then Some (nearer a p lo hi) else Some lo)
               else if ok_hi then Some hi
               else None)
      in case s of
           None \<Rightarrow> None
         | Some d \<Rightarrow> if d = 10 ^ k then Some (10 ^ (k - 1), n0 + 1) else Some (d, n0))"

definition exponential :: "string \<Rightarrow> nat \<Rightarrow> string" where
  "exponential ds n =
     (if length ds = 1 then ds else take 1 ds @ ''.'' @ drop 1 ds) @ ''e+'' @ dec (int n - 1)"

primrec first_digits :: "int \<Rightarrow> nat \<Rightarrow> nat list \<Rightarrow> int \<times> nat" where
  "first_digits a n0 [] = (a div 10 ^ (n0 - 21), n0)"
| "first_digits a n0 (k # ks) =
     (case shortest_digits a n0 k of
        None \<Rightarrow> first_digits a n0 ks
      | Some r \<Rightarrow> r)"

definition toString_large :: "int \<Rightarrow> string" where
  "toString_large a =
     (let r = first_digits a (length (dec a)) [1..<22] in exponential (dec (fst r)) (snd r))"

text \<open>
  \<open>x.toFixed(f)\<close>: not a number and the infinities by name; from \<open>1e21\<close> on the
  \<open>toString\<close> form; otherwise the integer \<open>n\<close> nearest to \<open>x * 10^f\<close> (the larger of two),
  written with \<open>f\<close> digits after the point.
\<close>

definition fixed_digits :: "nat \<Rightarrow> rat \<Rightarrow> string" where
  "fixed_digits f a =
     (let n = \<lfloor>a * 10 ^ f + 1 / 2\<rfloor>;
          m = (if n = 0 then ''0'' else dec n)
      in if f \<noteq> 0 then
           (let m2 = (if length m \<le> f then replicate (f + 1 - length m) (CHR ''0'') @ m else m);
                k = length m2
            in take (k - f) m2 @ ''.'' @ drop (k - f) m2)
         else m)"

fun toFixed :: "nat \<Rightarrow> jsnum \<Rightarrow> string" where
  "toFixed f NaN = ''NaN''"
| "toFixed f PInf = ''Infinity''"
| "toFixed f NInf = ''-Infinity''"
| "toFixed f (Fin q) =
     (let s = (if q < 0 then ''-'' else ''''); a = \<bar>q\<bar> in
      if 10 ^ 21 \<le> a then s @ toString_large \<lfloor>a\<rfloor> else s @ fixed_digits f a)"

section \<open>The monitor\<close>

subsection \<open>formatAmount\<close>

definition formatAmount :: "jsnum \<Rightarrow> string" where
  "formatAmount v =
     (if js_ge v (Fin 1000000000) then toFixed 2 (js_div v (Fin 1000000000)) @ ''B''
      else if js_ge v (Fin 1000000) then toFixed 2 (js_div v (Fin 1000000)) @ ''M''
      else if js_ge v (Fin 1000) then toFixed 2 (js_div v (Fin 1000)) @ ''K''
      else toFixed 2 v)"

subsection \<open>Data\<close>

text \<open>
  A transfer record as the explorer returns it: every field is a string. (\<open>tx_hash\<close>,
  \<open>tx_from\<close>, \<open>tx_to\<close> and \<open>tx_value\<close> are the fields \<open>hash\<close>, \<open>from\<close>, \<open>to\<close> and \<open>value\<close>.)
\<close>

record transfer =
  blockNumber :: string
  tx_hash :: string
  tx_from :: string
  tx_to :: string
  contractAddress :: string
  tokenName :: string
  tokenSymbol :: string
  tokenDecimal :: string
  tx_value :: string
  timeStamp :: string

text \<open>
  An entry of the address map, as the program builds it: the cursor is a number (what
  \<open>parseInt\<close> and \<open>Math.max\<close> return, or 0), the remark a string or absent. The map is the
  one in memory; how the file's text is read back is outside the model.
\<close>

record addressData =
  lastBlock :: jsnum
  remark :: "string option"

text \<open>
  The configuration read from the environment; a missing variable and an empty one are
  both falsy and are both the empty string here. \<open>minTransferAmount\<close> is what
  \<open>parseFloat(...) || 0.1\<close> gave. The last field is not a setting of the program: it is
  the engine's \<open>Math.pow(10, d)\<close> for the \<open>d\<close> outside \<open>0..22\<close> (see \<open>pow10\<close>), which like
  the settings is fixed for a run and is carried with them.
\<close>

record config =
  botToken :: string
  chatId :: string
  apiKey :: string
  minTransferAmount :: jsnum
  engine_pow10 :: "int \<Rightarrow> jsnum"

text \<open>
  The text of an alert is a template over the fields below; the template's fixed words,
  and the date that the program renders for the \<open>zh-CN\<close> locale from the parsed time
  stamp, are not modelled. \<open>alert_remark = None\<close> stands for the default label that the
  template prints when the address has no remark. \<open>Started\<close> is the notification that
  \<open>init\<close> sends (the number of addresses and the threshold).
\<close>

record alert =
  alert_remark :: "string option"
  alert_incoming :: bool
  alert_tokenName :: string
  alert_tokenSymbol :: string
  alert_contract :: string
  alert_amount :: string
  alert_address :: string
  alert_time :: jsnum

datatype message = Alert alert | Started nat jsnum

text \<open>The replies of the command handlers, by what their text says.\<close>

datatype reply =
    AddressFormatError
  | AlreadyMonitored
  | AddressAdded string jsnum
  | NotMonitored
  | AddressRemoved string
  | RemarkSet string string
  | ContractFormatError
  | AlreadyBlacklisted
  | ContractBlacklisted string
  | NotBlacklisted
  | ContractUnblacklisted string

datatype error = SendFailed | MissingConfig

text \<open>
  The state of the process and of what it has written. The two maps are JavaScript
  objects: association lists in the order of \<open>Object.entries\<close>, with one entry per key.
  \<open>addressesFile\<close> and \<open>blacklistFile\<close> hold every content written to the two files,
  the latest last; \<open>sendAttempts\<close> holds every call of \<open>bot.sendMessage\<close> made by
  \<open>sendNotification\<close>, with whether it succeeded; \<open>replies\<close> the answers of the command
  handlers; \<open>consoleErrors\<close> the errors that a \<open>catch\<close> logged. \<open>objectRemark\<close> and
  \<open>objectPrototypeRemark\<close> are the property \<open>remark\<close> of the built-in \<open>Object\<close> and
  \<open>Object.prototype\<close>, absent unless a command wrote it (see \<open>set_remark\<close>).
\<close>

record world =
  monitoredAddresses :: "(string \<times> addressData) list"
  blacklistedContracts :: "(string \<times> string) list"
  isInitializing :: bool
  objectRemark :: "string option"
  objectPrototypeRemark :: "string option"
  addressesFile :: "(string \<times> addressData) list list"
  blacklistFile :: "(string \<times> string) list list"
  sendAttempts :: "(message \<times> bool) list"
  replies :: "reply list"
  consoleErrors :: "error list"

subsection \<open>Property access\<close>

text \<open>
  \<open>obj[k]\<close> on a plain object finds the object's own property \<open>k\<close> or, failing that,
  the property that the object inherits from \<open>Object.prototype\<close>; it is \<open>undefined\<close> only
  when there is neither. Both maps are plain objects (an object literal, or the result of
  \<open>JSON.parse\<close>). The inherited properties are functions, and \<open>__proto__\<close> is the
  prototype object itself: all truthy, as the own entries are (they are objects).
\<close>

definition objectPrototypeKeys :: "string list" where
  "objectPrototypeKeys =
     [''constructor'', ''__proto__'', ''hasOwnProperty'', ''isPrototypeOf'',
      ''propertyIsEnumerable'', ''toLocaleString'', ''toString'', ''valueOf'',
      ''__defineGetter__'', ''__defineSetter__'', ''__lookupGetter__'', ''__lookupSetter__'']"

datatype 'a property = Own 'a | Inherited | Undefined

definition js_get :: "(string \<times> 'a) list \<Rightarrow> string \<Rightarrow> 'a property" where
  "js_get obj k =
     (case map_of obj k of
        Some v \<Rightarrow> Own v
      | None \<Rightarrow> if List.member objectPrototypeKeys k then Inherited else Undefined)"

fun js_truthy :: "'a property \<Rightarrow> bool" where
  "js_truthy (Own v) = True"
| "js_truthy Inherited = True"
| "js_truthy Undefined = False"

text \<open>
  \<open>obj[k] = v\<close> for a key other than \<open>__proto__\<close> (the program assigns by key only after
  the address test, which such a key fails): an own property keeps its place, a new one
  goes last. \<open>delete obj[k]\<close> removes an own property and is otherwise without effect.
\<close>

definition js_set :: "(string \<times> 'a) list \<Rightarrow> string \<Rightarrow> 'a \<Rightarrow> (string \<times> 'a) list" where
  "js_set obj k v =
     (if map_of obj k = None then obj @ [(k, v)]
      else map (\<lambda>kv. if fst kv = k then (k, v) else kv) obj)"

definition js_delete :: "(string \<times> 'a) list \<Rightarrow> string \<Rightarrow> (string \<times> 'a) list" where
  "js_delete obj k = filter (\<lambda>kv. fst kv \<noteq> k) obj"

subsection \<open>formatTransaction\<close>

text \<open>
  \<open>addressData?.remark\<close> for \<open>addressData = monitoredAddresses[k]\<close>: the remark of an
  own entry, or the one it inherits from \<open>Object.prototype\<close>; for an inherited
  \<open>addressData\<close>, the remark found on that object. \<open>or_default\<close> is \<open>|| default\<close>: an empty
  string is falsy.
\<close>

definition lookup_remark :: "world \<Rightarrow> string \<Rightarrow> string option" where
  "lookup_remark w k =
     (case js_get (monitoredAddresses w) k of
        Own d \<Rightarrow> (case remark d of Some r \<Rightarrow> Some r | None \<Rightarrow> objectPrototypeRemark w)
      | Inherited \<Rightarrow>
          (if k = ''constructor'' then
             (case objectRemark w of Some r \<Rightarrow> Some r | None \<Rightarrow> objectPrototypeRemark w)
           else objectPrototypeRemark w)
      | Undefined \<Rightarrow> None)"

definition or_default :: "string option \<Rightarrow> string option" where
  "or_default r = (case r of None \<Rightarrow> None | Some s \<Rightarrow> if s = [] then None else Some s)"

definition isIncoming :: "transfer \<Rightarrow> string \<Rightarrow> bool" where
  "isIncoming t monitorAddress = (toLowerCase (tx_to t) = toLowerCase monitorAddress)"

text \<open>\<open>parseInt(tx.tokenDecimal) || 18\<close>, and \<open>parseInt(tx.value) / Math.pow(10, decimals)\<close>.\<close>

definition decimals :: "transfer \<Rightarrow> jsnum" where
  "decimals t = (if js_truthy_num (parseInt (tokenDecimal t)) then parseInt (tokenDecimal t) else Fin 18)"

definition amount :: "config \<Rightarrow> transfer \<Rightarrow> jsnum" where
  "amount cfg t = js_div (parseInt (tx_value t)) (pow10 (engine_pow10 cfg) (decimals t))"

definition formatTransaction :: "config \<Rightarrow> world \<Rightarrow> transfer \<Rightarrow> string \<Rightarrow> message option" where
  "formatTransaction cfg w t monitorAddress =
     (if js_truthy (js_get (blacklistedContracts w) (toLowerCase (contractAddress t))) then None
      else if isIncoming t monitorAddress \<and> js_lt (amount cfg t) (minTransferAmount cfg) then None
      else Some (Alert \<lparr>
        alert_remark = or_default (lookup_remark w (toLowerCase monitorAddress)),
        alert_incoming = isIncoming t monitorAddress,
        alert_tokenName = tokenName t,
        alert_tokenSymbol = tokenSymbol t,
        alert_contract = contractAddress t,
        alert_amount = formatAmount (amount cfg t),
        alert_address = monitorAddress,
        alert_time = parseInt (timeStamp t) \<rparr>))"

subsection \<open>sendNotification\<close>

text \<open>
  The messaging channel is outside the program: \<open>chan n\<close> tells whether the \<open>n\<close>-th call
  of \<open>bot.sendMessage\<close> (counting from 0) succeeds; a failed call is a rejected promise,
  the error \<open>SendFailed\<close> thrown at the \<open>await\<close>.
\<close>

definition bot_sendMessage :: "(nat \<Rightarrow> bool) \<Rightarrow> message \<Rightarrow> world \<Rightarrow> (error + unit) \<times> world" where
  "bot_sendMessage chan m w =
     (if chan (length (sendAttempts w))
      then (Inr (), w\<lparr>sendAttempts := sendAttempts w @ [(m, True)]\<rparr>)
      else (Inl SendFailed, w\<lparr>sendAttempts := sendAttempts w @ [(m, False)]\<rparr>))"

text \<open>
  \<open>try { if (message) await bot.sendMessage(...) } catch (error) { console.error(...) }\<close>.
  A message is \<open>null\<close> (\<open>None\<close>) or a text that is never empty, so \<open>if (message)\<close> asks
  whether it is not \<open>null\<close>. The result says what the caller sees: \<open>Inl\<close> would be an
  exception that leaves the function.
\<close>

definition sendNotification :: "(nat \<Rightarrow> bool) \<Rightarrow> message option \<Rightarrow> world \<Rightarrow> (error + unit) \<times> world" where
  "sendNotification chan message w =
     (case message of
        None \<Rightarrow> (Inr (), w)
      | Some m \<Rightarrow>
          (case bot_sendMessage chan m w of
             (Inr u, w') \<Rightarrow> (Inr (), w')
           | (Inl e, w') \<Rightarrow> (Inr (), w'\<lparr>consoleErrors := consoleErrors w' @ [e]\<rparr>)))"

subsection \<open>checkTransactions\<close>

definition saveAddresses :: "world \<Rightarrow> world" where
  "saveAddresses w = w\<lparr>addressesFile := addressesFile w @ [monitoredAddresses w]\<rparr>"

definition saveBlacklist :: "world \<Rightarrow> world" where
  "saveBlacklist w = w\<lparr>blacklistFile := blacklistFile w @ [blacklistedContracts w]\<rparr>"

text \<open>
  The loops run over \<open>Object.entries(monitoredAddresses)\<close>; \<open>data\<close> is the object of the
  \<open>i\<close>-th entry itself, so \<open>data.lastBlock = b\<close> changes the map in place, and a later read
  of \<open>data.lastBlock\<close> sees it. The functions of this subsection are a tick that runs
  from its start to its end with nothing else in between; the next subsection cuts the
  tick at its \<open>await\<close>s, where the program lets another tick run.
\<close>

definition entry_address :: "world \<Rightarrow> nat \<Rightarrow> string" where
  "entry_address w i = fst (monitoredAddresses w ! i)"

definition entry_data :: "world \<Rightarrow> nat \<Rightarrow> addressData" where
  "entry_data w i = snd (monitoredAddresses w ! i)"

definition set_lastBlock :: "nat \<Rightarrow> jsnum \<Rightarrow> world \<Rightarrow> world" where
  "set_lastBlock i b w =
     w\<lparr>monitoredAddresses :=
         (monitoredAddresses w)[i := (entry_address w i, (entry_data w i)\<lparr>lastBlock := b\<rparr>)]\<rparr>"

text \<open>The body of the inner loop, for one record of the response for entry \<open>i\<close>.\<close>

definition process_tx ::
  "config \<Rightarrow> (nat \<Rightarrow> bool) \<Rightarrow> nat \<Rightarrow> transfer \<Rightarrow> world \<Rightarrow> (error + unit) \<times> world" where
  "process_tx cfg chan i t w =
     (if js_gt (parseInt (blockNumber t)) (lastBlock (entry_data w i)) then
        (case (if \<not> isInitializing w
               then sendNotification chan (formatTransaction cfg w t (entry_address w i)) w
               else (Inr (), w)) of
           (Inl e, w') \<Rightarrow> (Inl e, w')
         | (Inr u, w') \<Rightarrow> (Inr (), set_lastBlock i (parseInt (blockNumber t)) w'))
      else (Inr (), w))"

fun tx_loop ::
  "config \<Rightarrow> (nat \<Rightarrow> bool) \<Rightarrow> nat \<Rightarrow> transfer list \<Rightarrow> world \<Rightarrow> (error + unit) \<times> world" where
  "tx_loop cfg chan i [] w = (Inr (), w)"
| "tx_loop cfg chan i (t # ts) w =
     (case process_tx cfg chan i t w of
        (Inl e, w') \<Rightarrow> (Inl e, w')
      | (Inr u, w') \<Rightarrow> tx_loop cfg chan i ts w')"

text \<open>
  The body of the outer loop for entry \<open>i\<close>. \<open>getTokenTransfers\<close> is the explorer: any
  function from the address and the start block to a list of records (the program turns
  every failure of the request into the empty list).
\<close>

definition check_address ::
  "config \<Rightarrow> (nat \<Rightarrow> bool) \<Rightarrow> (string \<Rightarrow> jsnum \<Rightarrow> transfer list) \<Rightarrow> nat \<Rightarrow> world
     \<Rightarrow> (error + unit) \<times> world" where
  "check_address cfg chan getTokenTransfers i w =
     (if 0 < length (getTokenTransfers (entry_address w i) (lastBlock (entry_data w i))) then
        (case tx_loop cfg chan i
                (getTokenTransfers (entry_address w i) (lastBlock (entry_data w i))) w of
           (Inl e, w') \<Rightarrow> (Inl e, w')
         | (Inr u, w') \<Rightarrow> (Inr (), saveAddresses w'))
      else (Inr (), w))"

fun address_loop ::
  "config \<Rightarrow> (nat \<Rightarrow> bool) \<Rightarrow> (string \<Rightarrow> jsnum \<Rightarrow> transfer list) \<Rightarrow> nat list \<Rightarrow> world
     \<Rightarrow> (error + unit) \<times> world" where
  "address_loop cfg chan getTokenTransfers [] w = (Inr (), w)"
| "address_loop cfg chan getTokenTransfers (i # js) w =
     (case check_address cfg chan getTokenTransfers i w of
        (Inl e, w') \<Rightarrow> (Inl e, w')
      | (Inr u, w') \<Rightarrow> address_loop cfg chan getTokenTransfers js w')"

definition checkTransactions ::
  "config \<Rightarrow> (nat \<Rightarrow> bool) \<Rightarrow> (string \<Rightarrow> jsnum \<Rightarrow> transfer list) \<Rightarrow> world
     \<Rightarrow> (error + unit) \<times> world" where
  "checkTransactions cfg chan getTokenTransfers w =
     address_loop cfg chan getTokenTransfers [0..<length (monitoredAddresses w)] w"

subsection \<open>Ticks that overlap\<close>

text \<open>
  \<open>init\<close> arms \<open>setInterval(checkTransactions, config.interval)\<close>, and \<open>checkTransactions\<close>
  is \<open>async\<close>: the timer starts a new tick every interval whether or not the previous one
  has returned, and a tick gives way to the others at each \<open>await\<close>. The tick has two:
  \<open>await getTokenTransfers(address, data.lastBlock)\<close> at the head of the outer loop, and
  \<open>await sendNotification(...)\<close> in the inner loop, which stands between the test
  \<open>blockNum > data.lastBlock\<close> and the assignment \<open>data.lastBlock = blockNum\<close>.

  A \<open>task\<close> is where one tick stands: about to fetch for the entries \<open>js\<close> that are left;
  about to run the inner loop's body on the records \<open>ts\<close> that are left for entry \<open>i\<close>;
  suspended at the \<open>await\<close> of the send, with the block number \<open>b\<close> that it will assign
  when it resumes; or returned. \<open>tick_step\<close> runs a task from one of these points to the
  next, with the explorer \<open>getTokenTransfers\<close> that answers this tick. The request and
  the call of \<open>bot.sendMessage\<close> are made by the step that reaches the \<open>await\<close>.
  \<open>run_schedule\<close> runs the tasks of several ticks in the order that a schedule gives
  (the number of the task that takes the next step); a schedule that runs one task to
  its end before it starts the next is the ticks one after the other.
\<close>

datatype task =
    Fetching "nat list"
  | Testing nat "transfer list" "nat list"
  | Awaiting nat jsnum "transfer list" "nat list"
  | Returned

fun tick_step ::
  "config \<Rightarrow> (nat \<Rightarrow> bool) \<Rightarrow> (string \<Rightarrow> jsnum \<Rightarrow> transfer list) \<Rightarrow> task \<Rightarrow> world
     \<Rightarrow> task \<times> world" where
  "tick_step cfg chan getTokenTransfers (Fetching []) w = (Returned, w)"
| "tick_step cfg chan getTokenTransfers (Fetching (i # js)) w =
     (if 0 < length (getTokenTransfers (entry_address w i) (lastBlock (entry_data w i)))
      then (Testing i (getTokenTransfers (entry_address w i) (lastBlock (entry_data w i))) js, w)
      else (Fetching js, w))"
| "tick_step cfg chan getTokenTransfers (Testing i [] js) w = (Fetching js, saveAddresses w)"
| "tick_step cfg chan getTokenTransfers (Testing i (t # ts) js) w =
     (if js_gt (parseInt (blockNumber t)) (lastBlock (entry_data w i)) then
        (if \<not> isInitializing w
         then (Awaiting i (parseInt (blockNumber t)) ts js,
               snd (sendNotification chan (formatTransaction cfg w t (entry_address w i)) w))
         else (Testing i ts js, set_lastBlock i (parseInt (blockNumber t)) w))
      else (Testing i ts js, w))"
| "tick_step cfg chan getTokenTransfers (Awaiting i b ts js) w =
     (Testing i ts js, set_lastBlock i b w)"
| "tick_step cfg chan getTokenTransfers Returned w = (Returned, w)"

text \<open>The task of a tick that the timer starts in the state \<open>w\<close>.\<close>

definition start_tick :: "world \<Rightarrow> task" where
  "start_tick w = Fetching [0..<length (monitoredAddresses w)]"

fun run_schedule ::
  "config \<Rightarrow> (nat \<Rightarrow> bool) \<Rightarrow> nat list \<Rightarrow> ((string \<Rightarrow> jsnum \<Rightarrow> transfer list) \<times> task) list
     \<Rightarrow> world \<Rightarrow> ((string \<Rightarrow> jsnum \<Rightarrow> transfer list) \<times> task) list \<times> world" where
  "run_schedule cfg chan [] ks w = (ks, w)"
| "run_schedule cfg chan (n # ns) ks w =
     (if n < length ks then
        run_schedule cfg chan ns
          (ks[n := (fst (ks ! n), fst (tick_step cfg chan (fst (ks ! n)) (snd (ks ! n)) w))])
          (snd (tick_step cfg chan (fst (ks ! n)) (snd (ks ! n)) w))
      else run_schedule cfg chan ns ks w)"

text \<open>A task run alone, for at most \<open>n\<close> steps.\<close>

fun run_alone ::
  "config \<Rightarrow> (nat \<Rightarrow> bool) \<Rightarrow> (string \<Rightarrow> jsnum \<Rightarrow> transfer list) \<Rightarrow> nat \<Rightarrow> task \<Rightarrow> world
     \<Rightarrow> task \<times> world" where
  "run_alone cfg chan getTokenTransfers 0 k w = (k, w)"
| "run_alone cfg chan getTokenTransfers (Suc n) k w =
     run_alone cfg chan getTokenTransfers n
       (fst (tick_step cfg chan getTokenTransfers k w))
       (snd (tick_step cfg chan getTokenTransfers k w))"

subsection \<open>init\<close>

text \<open>
  The body of the start-up loop for entry \<open>i\<close>: the explorer is asked from block 0. The
  loop's \<open>catch\<close> has nothing to catch here, \<open>getTokenTransfers\<close> turning its own errors
  into the empty list.
\<close>

definition sync_address :: "(string \<Rightarrow> jsnum \<Rightarrow> transfer list) \<Rightarrow> nat \<Rightarrow> world \<Rightarrow> world" where
  "sync_address getTokenTransfers i w =
     (if 0 < length (getTokenTransfers (entry_address w i) (Fin 0)) then
        set_lastBlock i
          (Math_max (map (\<lambda>t. parseInt (blockNumber t))
             (getTokenTransfers (entry_address w i) (Fin 0)))) w
      else w)"

text \<open>
  \<open>init\<close>, with \<open>w\<close> the state that \<open>loadAddresses\<close> has read: the check of the
  configuration (\<open>process.exit(1)\<close> is the error \<open>MissingConfig\<close>), the start-up loop, the
  save, the end of the initializing phase and the start-up notification. The timer that
  \<open>init\<close> arms last runs \<open>checkTransactions\<close>.
\<close>

definition init ::
  "config \<Rightarrow> (nat \<Rightarrow> bool) \<Rightarrow> (string \<Rightarrow> jsnum \<Rightarrow> transfer list) \<Rightarrow> world
     \<Rightarrow> (error + unit) \<times> world" where
  "init cfg chan getTokenTransfers w =
     (if botToken cfg = [] \<or> chatId cfg = [] \<or> apiKey cfg = [] then (Inl MissingConfig, w)
      else sendNotification chan
             (Some (Started (length (monitoredAddresses w)) (minTransferAmount cfg)))
             ((saveAddresses
                 (fold (sync_address getTokenTransfers) [0..<length (monitoredAddresses w)] w))
              \<lparr>isInitializing := False\<rparr>))"

subsection \<open>The command handlers\<close>

text \<open>
  Each handler gets the chat the message came from (\<open>msg.chat.id.toString()\<close>) and the
  text that the command's pattern captured (\<open>match[1]\<close>, and \<open>match[2]\<close> for the remark);
  it answers with \<open>bot.sendMessage(msg.chat.id, ...)\<close>, which it does not await.
\<close>

definition send_reply :: "reply \<Rightarrow> world \<Rightarrow> world" where
  "send_reply r w = w\<lparr>replies := replies w @ [r]\<rparr>"

definition onAdd ::
  "config \<Rightarrow> (string \<Rightarrow> jsnum \<Rightarrow> transfer list) \<Rightarrow> string \<Rightarrow> string \<Rightarrow> world \<Rightarrow> world" where
  "onAdd cfg getTokenTransfers chat arg w =
     (if chat \<noteq> chatId cfg then w
      else if \<not> address_regex_test (toLowerCase (trim arg)) then send_reply AddressFormatError w
      else if js_truthy (js_get (monitoredAddresses w) (toLowerCase (trim arg)))
        then send_reply AlreadyMonitored w
      else
        send_reply
          (AddressAdded (toLowerCase (trim arg))
             (if 0 < length (getTokenTransfers (toLowerCase (trim arg)) (Fin 0))
              then Math_max (map (\<lambda>t. parseInt (blockNumber t))
                     (getTokenTransfers (toLowerCase (trim arg)) (Fin 0)))
              else Fin 0))
          (saveAddresses
             (w\<lparr>monitoredAddresses :=
                  js_set (monitoredAddresses w) (toLowerCase (trim arg))
                    \<lparr>lastBlock =
                       (if 0 < length (getTokenTransfers (toLowerCase (trim arg)) (Fin 0))
                        then Math_max (map (\<lambda>t. parseInt (blockNumber t))
                               (getTokenTransfers (toLowerCase (trim arg)) (Fin 0)))
                        else Fin 0),
                     remark = None\<rparr>\<rparr>)))"

definition onRemove :: "config \<Rightarrow> string \<Rightarrow> string \<Rightarrow> world \<Rightarrow> world" where
  "onRemove cfg chat arg w =
     (if chat \<noteq> chatId cfg then w
      else if \<not> js_truthy (js_get (monitoredAddresses w) (toLowerCase (trim arg)))
        then send_reply NotMonitored w
      else
        send_reply (AddressRemoved (toLowerCase (trim arg)))
          (saveAddresses
             (w\<lparr>monitoredAddresses :=
                  js_delete (monitoredAddresses w) (toLowerCase (trim arg))\<rparr>)))"

text \<open>
  \<open>monitoredAddresses[k].remark = r\<close>: the write lands on the object that the lookup
  found. For an own entry that is the entry. For \<open>__proto__\<close> it is \<open>Object.prototype\<close>,
  for \<open>constructor\<close> the function \<open>Object\<close>; a write to another inherited function
  changes nothing that the program reads.
\<close>

definition set_remark :: "string \<Rightarrow> string \<Rightarrow> world \<Rightarrow> world" where
  "set_remark k r w =
     (case js_get (monitoredAddresses w) k of
        Own d \<Rightarrow> w\<lparr>monitoredAddresses := js_set (monitoredAddresses w) k (d\<lparr>remark := Some r\<rparr>)\<rparr>
      | Inherited \<Rightarrow>
          (if k = ''__proto__'' then w\<lparr>objectPrototypeRemark := Some r\<rparr>
           else if k = ''constructor'' then w\<lparr>objectRemark := Some r\<rparr>
           else w)
      | Undefined \<Rightarrow> w)"

definition onRemark :: "config \<Rightarrow> string \<Rightarrow> string \<Rightarrow> string \<Rightarrow> world \<Rightarrow> world" where
  "onRemark cfg chat arg1 arg2 w =
     (if chat \<noteq> chatId cfg then w
      else if \<not> js_truthy (js_get (monitoredAddresses w) (toLowerCase (trim arg1)))
        then send_reply NotMonitored w
      else
        send_reply (RemarkSet (toLowerCase (trim arg1)) (trim arg2))
          (saveAddresses (set_remark (toLowerCase (trim arg1)) (trim arg2) w)))"

text \<open>\<open>now\<close> is \<open>new Date().toISOString()\<close> at the time of the command.\<close>

definition onBlacklist :: "config \<Rightarrow> string \<Rightarrow> string \<Rightarrow> string \<Rightarrow> world \<Rightarrow> world" where
  "onBlacklist cfg now chat arg w =
     (if chat \<noteq> chatId cfg then w
      else if \<not> address_regex_test (toLowerCase (trim arg)) then send_reply ContractFormatError w
      else if js_truthy (js_get (blacklistedContracts w) (toLowerCase (trim arg)))
        then send_reply AlreadyBlacklisted w
      else
        send_reply (ContractBlacklisted (toLowerCase (trim arg)))
          (saveBlacklist
             (w\<lparr>blacklistedContracts :=
                  js_set (blacklistedContracts w) (toLowerCase (trim arg)) now\<rparr>)))"

definition onUnblacklist :: "config \<Rightarrow> string \<Rightarrow> string \<Rightarrow> world \<Rightarrow> world" where
  "onUnblacklist cfg chat arg w =
     (if chat \<noteq> chatId cfg then w
      else if \<not> js_truthy (js_get (blacklistedContracts w) (toLowerCase (trim arg)))
        then send_reply NotBlacklisted w
      else
        send_reply (ContractUnblacklisted (toLowerCase (trim arg)))
          (saveBlacklist
             (w\<lparr>blacklistedContracts :=
                  js_delete (blacklistedContracts w) (toLowerCase (trim arg))\<rparr>)))"

section \<open>Notions used in the statements and in the proofs\<close>

text \<open>A cursor that went from \<open>a\<close> to \<open>b\<close> stayed or moved forward.\<close>

definition advanced :: "jsnum \<Rightarrow> jsnum \<Rightarrow> bool" where
  "advanced a b = (b = a \<or> js_lt a b)"

text \<open>An entry of the log of sends that is an alert about the address \<open>a\<close>.\<close>

definition for_address :: "string \<Rightarrow> message \<times> bool \<Rightarrow> bool" where
  "for_address a x = (case fst x of Alert al \<Rightarrow> alert_address al = a | Started n m \<Rightarrow> False)"

text \<open>
  What the work on entry \<open>i\<close> may change: the cursor of that entry, forward, and the log
  of sends, by alerts about that entry's address.
\<close>

definition only_entry :: "nat \<Rightarrow> world \<Rightarrow> world \<Rightarrow> bool" where
  "only_entry i w w' =
     (length (monitoredAddresses w') = length (monitoredAddresses w) \<and>
      map fst (monitoredAddresses w') = map fst (monitoredAddresses w) \<and>
      (\<forall>j. j \<noteq> i \<longrightarrow> monitoredAddresses w' ! j = monitoredAddresses w ! j) \<and>
      remark (entry_data w' i) = remark (entry_data w i) \<and>
      advanced (lastBlock (entry_data w i)) (lastBlock (entry_data w' i)) \<and>
      isInitializing w' = isInitializing w \<and>
      blacklistedContracts w' = blacklistedContracts w \<and>
      (\<exists>ex. sendAttempts w' = sendAttempts w @ ex \<and> (\<forall>x\<in>set ex. for_address (entry_address w i) x)))"

text \<open>Every cursor is where it was or further.\<close>

definition all_advanced :: "world \<Rightarrow> world \<Rightarrow> bool" where
  "all_advanced w w' =
     (map fst (monitoredAddresses w') = map fst (monitoredAddresses w) \<and>
      (\<forall>i<length (monitoredAddresses w).
         advanced (lastBlock (entry_data w i)) (lastBlock (entry_data w' i))))"

text \<open>The explorer's response for entry \<open>i\<close>, asked from the entry's cursor, is not empty.\<close>

definition has_response :: "(string \<Rightarrow> jsnum \<Rightarrow> transfer list) \<Rightarrow> world \<Rightarrow> nat \<Rightarrow> bool" where
  "has_response feed w i = (feed (entry_address w i) (lastBlock (entry_data w i)) \<noteq> [])"

text \<open>Two states that differ at most in the log of sends and in the errors logged.\<close>

definition same_but_log :: "world \<Rightarrow> world \<Rightarrow> bool" where
  "same_but_log w w' =
     (monitoredAddresses w = monitoredAddresses w' \<and>
      blacklistedContracts w = blacklistedContracts w' \<and>
      isInitializing w = isInitializing w' \<and>
      objectRemark w = objectRemark w' \<and>
      objectPrototypeRemark w = objectPrototypeRemark w' \<and>
      addressesFile w = addressesFile w')"

text \<open>
  From the claim's words: a value \<open>rendered at 2 decimals\<close> is its sign, the digits of its
  integer part, a point and two digits, for the nearest hundredth (the one of larger
  magnitude when two are as near); \<open>NaN\<close> and the infinities, of which the claim does not
  speak, are written by name.
\<close>

fun two_decimals :: "jsnum \<Rightarrow> string" where
  "two_decimals NaN = ''NaN''"
| "two_decimals PInf = ''Infinity''"
| "two_decimals NInf = ''-Infinity''"
| "two_decimals (Fin q) = (if q < 0 then ''-'' else '''') @ fixed_digits 2 \<bar>q\<bar>"

text \<open>
  From the claim's words: \<open>v/1e9\<close> at 2 decimals and \<open>B\<close> when \<open>v >= 1e9\<close>, \<open>v/1e6\<close> and
  \<open>M\<close> when \<open>1e6 <= v < 1e9\<close>, \<open>v/1e3\<close> and \<open>K\<close> when \<open>1e3 <= v < 1e6\<close>, otherwise \<open>v\<close> at 2
  decimals; the quotients are those of doubles.
\<close>

definition claimed_formatAmount :: "jsnum \<Rightarrow> string" where
  "claimed_formatAmount v =
     (if js_ge v (Fin 1000000000) then two_decimals (js_div v (Fin 1000000000)) @ ''B''
      else if js_ge v (Fin 1000000) \<and> js_lt v (Fin 1000000000)
        then two_decimals (js_div v (Fin 1000000)) @ ''M''
      else if js_ge v (Fin 1000) \<and> js_lt v (Fin 1000000)
        then two_decimals (js_div v (Fin 1000)) @ ''K''
      else two_decimals v)"

text \<open>The value that \<open>formatAmount\<close> hands to \<open>toFixed\<close>.\<close>

definition scaled :: "jsnum \<Rightarrow> jsnum" where
  "scaled v =
     (if js_ge v (Fin 1000000000) then js_div v (Fin 1000000000)
      else if js_ge v (Fin 1000000) then js_div v (Fin 1000000)
      else if js_ge v (Fin 1000) then js_div v (Fin 1000)
      else v)"

subsection \<open>Example values\<close>

text \<open>
  A configuration with the default threshold 0.1, a monitored address, a blacklisted
  contract and another one, a transfer given its block, recipient, contract, raw value and
  decimals, and a state that monitors the address from block 100.
\<close>

definition ex_cfg :: config where
  "ex_cfg = \<lparr>botToken = ''token'', chatId = ''42'', apiKey = ''key'',
             minTransferAmount = fl (1 / 10), engine_pow10 = nearest_pow10\<rparr>"

definition ex_address :: string where
  "ex_address = ''0x00000000000000000000000000000000000000aa''"

definition ex_blacklisted :: string where
  "ex_blacklisted = ''0x00000000000000000000000000000000000000bb''"

definition ex_token :: string where
  "ex_token = ''0x00000000000000000000000000000000000000cc''"

definition ex_transfer :: "string \<Rightarrow> string \<Rightarrow> string \<Rightarrow> string \<Rightarrow> string \<Rightarrow> transfer" where
  "ex_transfer b recipient contract v d =
     \<lparr>blockNumber = b, tx_hash = ''0x01'', tx_from = ''0x00000000000000000000000000000000000000ff'',
      tx_to = recipient, contractAddress = contract, tokenName = ''Token'', tokenSymbol = ''TKN'',
      tokenDecimal = d, tx_value = v, timeStamp = ''1700000000''\<rparr>"

definition ex_world :: world where
  "ex_world =
     \<lparr>monitoredAddresses = [(ex_address, \<lparr>lastBlock = Fin 100, remark = None\<rparr>)],
      blacklistedContracts = [(ex_blacklisted, ''2024-01-01T00:00:00.000Z'')],
      isInitializing = False, objectRemark = None, objectPrototypeRemark = None,
      addressesFile = [], blacklistFile = [], sendAttempts = [], replies = [],
      consoleErrors = []\<rparr>"

text \<open>
  Two ticks that overlap. The first is answered before block 105 exists, with the record
  of block 101; the second is answered with the records of blocks 101 and 105. The
  schedule: the first tick fetches, passes the test on block 101 and waits for its send;
  the second tick runs from its start to its end; the first tick resumes.
\<close>

definition ex_first_feed :: "string \<Rightarrow> jsnum \<Rightarrow> transfer list" where
  "ex_first_feed a b = [ex_transfer ''101'' ex_address ex_token ''1000000000000000000'' ''18'']"

definition ex_second_feed :: "string \<Rightarrow> jsnum \<Rightarrow> transfer list" where
  "ex_second_feed a b =
     [ex_transfer ''101'' ex_address ex_token ''1000000000000000000'' ''18'',
      ex_transfer ''105'' ex_address ex_token ''1000000000000000000'' ''18'']"

definition ex_ticks :: "((string \<Rightarrow> jsnum \<Rightarrow> transfer list) \<times> task) list" where
  "ex_ticks = [(ex_first_feed, start_tick ex_world), (ex_second_feed, start_tick ex_world)]"

definition ex_second_tick_done :: "nat list" where
  "ex_second_tick_done = [0, 0, 1, 1, 1, 1, 1, 1, 1]"

definition ex_first_tick_resumed :: "nat list" where
  "ex_first_tick_resumed = ex_second_tick_done @ [0]"

definition ex_first_tick_done :: "nat list" where
  "ex_first_tick_done = ex_second_tick_done @ [0, 0, 0]"




text \<open>The explorer returns the one record at the cursor, and the records of the scenario.\<close>

definition ex_stale_feed :: "string \<Rightarrow> jsnum \<Rightarrow> transfer list" where
  "ex_stale_feed a b = [ex_transfer ''100'' ex_address ex_token ''5000000000000000000'' ''18'']"

definition ex_scenario_feed :: "string \<Rightarrow> jsnum \<Rightarrow> transfer list" where
  "ex_scenario_feed a b =
     [ex_transfer ''100'' ex_address ex_token ''5000000000000000000'' ''18'',
      ex_transfer ''101'' ex_address ''0x00000000000000000000000000000000000000BB''
        ''5000000000000000000'' ''18'',
      ex_transfer ''105'' ex_address ex_token ''1'' ''18'']"

text \<open>The explorer returns one outgoing transfer of 2.5 million tokens at block 105.\<close>

definition ex_outgoing_feed :: "string \<Rightarrow> jsnum \<Rightarrow> transfer list" where
  "ex_outgoing_feed a b =
     [ex_transfer ''105'' ''0x00000000000000000000000000000000000000ee'' ex_token
        ''2500000000000000000000000'' ''18'']"

text \<open>An incoming transfer of 5000 tokens of the blacklisted contract.\<close>

definition ex_blacklisted_transfer :: transfer where
  "ex_blacklisted_transfer =
     ex_transfer ''101'' ex_address ''0x00000000000000000000000000000000000000BB''
       ''5000000000000000000000'' ''18''"

text \<open>An incoming transfer of exactly 0.1 token of another contract.\<close>

definition ex_threshold_transfer :: transfer where
  "ex_threshold_transfer = ex_transfer ''101'' ex_address ex_token ''100000000000000000'' ''18''"

text \<open>An incoming transfer of 5 units of a token that has no decimals.\<close>

definition ex_zero_decimal_transfer :: transfer where
  "ex_zero_decimal_transfer = ex_transfer ''101'' ex_address ex_token ''5'' ''0''"

text \<open>The explorer returns, from block 0, two old records (blocks 5 and 9).\<close>

definition ex_old_feed :: "string \<Rightarrow> jsnum \<Rightarrow> transfer list" where
  "ex_old_feed a b =
     [ex_transfer ''5'' ex_address ex_token ''5000000000000000000'' ''18'',
      ex_transfer ''9'' ex_address ex_token ''5000000000000000000'' ''18'']"

text \<open>The explorer returns one record of block 50, an incoming transfer of 5 tokens.\<close>

definition ex_history_feed :: "string \<Rightarrow> jsnum \<Rightarrow> transfer list" where
  "ex_history_feed a b = [ex_transfer ''50'' ex_address ex_token ''5000000000000000000'' ''18'']"

section \<open>Lemmas\<close>

lemma js_lt_irrefl: "\<not> js_lt a a"
  by (cases a) auto

lemma js_lt_trans: "js_lt a b \<Longrightarrow> js_lt b c \<Longrightarrow> js_lt a c"
  by (cases a; cases b; cases c) auto

lemma js_lt_asym: "js_lt a b \<Longrightarrow> \<not> js_lt b a"
  by (cases a; cases b) auto


lemma js_le_trans: "js_le a b \<Longrightarrow> js_le b c \<Longrightarrow> js_le a c"
  by (cases a; cases b; cases c) (auto simp: js_le_def js_ge_def)

lemma js_ge_not_lt: "js_ge a b \<Longrightarrow> \<not> js_ge a c \<Longrightarrow> c \<noteq> NaN \<Longrightarrow> js_lt a c"
  by (cases a; cases c) (auto simp: js_ge_def)

lemma advanced_refl: "advanced a a"
  by (simp add: advanced_def)

lemma advanced_trans: "advanced a b \<Longrightarrow> advanced b c \<Longrightarrow> advanced a c"
  by (auto simp: advanced_def dest: js_lt_trans)

lemma js_max2_props:
  assumes "a \<noteq> NaN" "x \<noteq> NaN"
  shows "js_max2 a x \<noteq> NaN" "js_max2 a x = a \<or> js_max2 a x = x"
    "js_le a (js_max2 a x)" "js_le x (js_max2 a x)"
  using assms by (cases a; cases x; auto simp: js_le_def js_ge_def)+

lemma foldl_js_max2:
  assumes "a \<noteq> NaN" "NaN \<notin> set xs"
  shows "foldl js_max2 a xs \<noteq> NaN \<and>
         (foldl js_max2 a xs = a \<or> foldl js_max2 a xs \<in> set xs) \<and>
         js_le a (foldl js_max2 a xs) \<and>
         (\<forall>x\<in>set xs. js_le x (foldl js_max2 a xs))"
  using assms
proof (induction xs arbitrary: a)
  case Nil
  then show ?case by (cases a) (auto simp: js_le_def js_ge_def)
next
  case (Cons x xs)
  let ?b = "js_max2 a x"
  have x: "x \<noteq> NaN" using Cons.prems(2) by auto
  note b = js_max2_props [OF Cons.prems(1) x]
  have ih: "foldl js_max2 ?b xs \<noteq> NaN \<and>
         (foldl js_max2 ?b xs = ?b \<or> foldl js_max2 ?b xs \<in> set xs) \<and>
         js_le ?b (foldl js_max2 ?b xs) \<and>
         (\<forall>x\<in>set xs. js_le x (foldl js_max2 ?b xs))"
    using b(1) Cons.prems(2) by (intro Cons.IH) auto
  from ih b show ?case by (auto intro: js_le_trans)
qed

lemma Math_max_NaN: "NaN \<in> set xs \<Longrightarrow> Math_max xs = NaN"
proof -
  have n: "foldl js_max2 NaN ys = NaN" for ys by (induction ys) simp_all
  have "NaN \<in> set xs \<Longrightarrow> foldl js_max2 a xs = NaN" for a
  proof (induction xs arbitrary: a)
    case Nil
    then show ?case by simp
  next
    case (Cons x xs)
    show ?case
    proof (cases "x = NaN")
      case True
      then have "js_max2 a x = NaN" by (cases a) simp_all
      then show ?thesis by (simp add: n)
    next
      case False
      with Cons.prems have "NaN \<in> set xs" by simp
      then show ?thesis by (simp add: Cons.IH)
    qed
  qed
  then show "NaN \<in> set xs \<Longrightarrow> Math_max xs = NaN" by (simp add: Math_max_def)
qed

text \<open>\<open>Math.max\<close> of parsed block numbers, none of them \<open>NaN\<close>, is the greatest of them.\<close>

lemma Math_max_greatest:
  assumes "xs \<noteq> []" "NaN \<notin> set xs"
  shows "Math_max xs \<in> set xs \<and> (\<forall>x\<in>set xs. js_le x (Math_max xs))"
proof -
  obtain y ys where xs: "xs = y # ys" using assms(1) by (cases xs) auto
  with assms(2) have y: "y \<noteq> NaN" "NaN \<notin> set ys" by auto
  have s: "js_max2 NInf y = y" using y(1) by (cases y) auto
  from foldl_js_max2 [OF y] xs s show ?thesis by (auto simp: Math_max_def)
qed

lemma pow10_18: "pow10 engine (Fin 18) = Fin (10 ^ 18)"
  by code_simp

lemma js_get_own:
  "k \<in> set (map fst obj) \<Longrightarrow> js_truthy (js_get obj k)"
  by (auto simp: js_get_def map_of_eq_None_iff split: option.splits)

lemma sendNotification_fst: "fst (sendNotification chan m w) = Inr ()"
  by (auto simp: sendNotification_def bot_sendMessage_def split: option.splits)

lemma sendNotification_snd:
  "snd (sendNotification chan m w) =
     (case m of
        None \<Rightarrow> w
      | Some x \<Rightarrow>
          if chan (length (sendAttempts w))
          then w\<lparr>sendAttempts := sendAttempts w @ [(x, True)]\<rparr>
          else w\<lparr>sendAttempts := sendAttempts w @ [(x, False)],
                 consoleErrors := consoleErrors w @ [SendFailed]\<rparr>)"
  by (auto simp: sendNotification_def bot_sendMessage_def split: option.splits)

lemma sendNotification_frame:
  "monitoredAddresses (snd (sendNotification chan m w)) = monitoredAddresses w"
  "blacklistedContracts (snd (sendNotification chan m w)) = blacklistedContracts w"
  "isInitializing (snd (sendNotification chan m w)) = isInitializing w"
  "addressesFile (snd (sendNotification chan m w)) = addressesFile w"
  "objectRemark (snd (sendNotification chan m w)) = objectRemark w"
  "objectPrototypeRemark (snd (sendNotification chan m w)) = objectPrototypeRemark w"
  by (auto simp: sendNotification_snd split: option.splits)

lemma process_tx_fst: "fst (process_tx cfg chan i t w) = Inr ()"
  using sendNotification_fst [of chan "formatTransaction cfg w t (entry_address w i)" w]
  by (auto simp: process_tx_def split: prod.splits sum.splits)

lemma process_tx_snd:
  "snd (process_tx cfg chan i t w) =
     (if js_gt (parseInt (blockNumber t)) (lastBlock (entry_data w i))
      then set_lastBlock i (parseInt (blockNumber t))
             (if isInitializing w then w
              else snd (sendNotification chan (formatTransaction cfg w t (entry_address w i)) w))
      else w)"
proof -
  let ?m = "formatTransaction cfg w t (entry_address w i)"
  obtain r w' where rw: "sendNotification chan ?m w = (r, w')" by (cases "sendNotification chan ?m w")
  with sendNotification_fst [of chan ?m w] have "r = Inr ()" by simp
  with rw show ?thesis by (simp add: process_tx_def)
qed

lemma process_tx_lastBlock:
  "i < length (monitoredAddresses w) \<Longrightarrow>
   lastBlock (entry_data (snd (process_tx cfg chan i t w)) i) =
     (if js_gt (parseInt (blockNumber t)) (lastBlock (entry_data w i))
      then parseInt (blockNumber t) else lastBlock (entry_data w i))"
  by (simp add: process_tx_snd set_lastBlock_def entry_data_def sendNotification_frame)

lemma formatTransaction_address:
  "formatTransaction cfg w t a = Some m \<Longrightarrow> for_address a (m, ok)"
  by (auto simp: formatTransaction_def for_address_def split: if_splits)

lemma only_entry_refl: "only_entry i w w"
  by (simp add: only_entry_def advanced_refl)

lemma entry_address_eq:
  "map fst (monitoredAddresses w') = map fst (monitoredAddresses w) \<Longrightarrow> i < length (monitoredAddresses w)
     \<Longrightarrow> entry_address w' i = entry_address w i"
  unfolding entry_address_def by (metis length_map nth_map)

lemma only_entry_trans:
  assumes "only_entry i w w1" "only_entry i w1 w2" "i < length (monitoredAddresses w)"
  shows "only_entry i w w2"
proof -
  from assms(1) obtain ex1 where e1: "sendAttempts w1 = sendAttempts w @ ex1"
    "\<forall>x\<in>set ex1. for_address (entry_address w i) x" by (auto simp: only_entry_def)
  from assms(2) obtain ex2 where e2: "sendAttempts w2 = sendAttempts w1 @ ex2"
    "\<forall>x\<in>set ex2. for_address (entry_address w1 i) x" by (auto simp: only_entry_def)
  have a: "entry_address w1 i = entry_address w i"
    using assms(1,3) by (auto simp: only_entry_def intro: entry_address_eq)
  have "sendAttempts w2 = sendAttempts w @ (ex1 @ ex2)" using e1 e2 by simp
  moreover have "\<forall>x\<in>set (ex1 @ ex2). for_address (entry_address w i) x" using e1 e2 a by auto
  ultimately have s: "\<exists>ex. sendAttempts w2 = sendAttempts w @ ex \<and> (\<forall>x\<in>set ex. for_address (entry_address w i) x)"
    by blast
  have adv: "advanced (lastBlock (entry_data w i)) (lastBlock (entry_data w2 i))"
    using assms(1,2) by (auto simp: only_entry_def intro: advanced_trans)
  show ?thesis
    using assms(1,2) s adv unfolding only_entry_def by (simp (no_asm_simp))
qed

lemma only_entry_length:
  "only_entry i w w' \<Longrightarrow> length (monitoredAddresses w') = length (monitoredAddresses w)"
  by (simp add: only_entry_def)

lemma process_tx_only_entry:
  assumes "i < length (monitoredAddresses w)"
  shows "only_entry i w (snd (process_tx cfg chan i t w))"
proof (cases "js_gt (parseInt (blockNumber t)) (lastBlock (entry_data w i))")
  case False
  then show ?thesis by (simp add: process_tx_snd only_entry_refl)
next
  case True
  let ?m = "formatTransaction cfg w t (entry_address w i)"
  let ?w1 = "if isInitializing w then w else snd (sendNotification chan ?m w)"
  have w': "snd (process_tx cfg chan i t w) = set_lastBlock i (parseInt (blockNumber t)) ?w1"
    using True by (simp add: process_tx_snd)
  have m1: "monitoredAddresses ?w1 = monitoredAddresses w" by (simp add: sendNotification_frame)
  have i1: "isInitializing ?w1 = isInitializing w" by (simp add: sendNotification_frame)
  have b1: "blacklistedContracts ?w1 = blacklistedContracts w" by (simp add: sendNotification_frame)
  have s1: "\<exists>ex. sendAttempts ?w1 = sendAttempts w @ ex \<and> (\<forall>x\<in>set ex. for_address (entry_address w i) x)"
  proof (cases "isInitializing w")
    case True then show ?thesis by simp
  next
    case False
    show ?thesis
    proof (cases ?m)
      case None
      with False show ?thesis by (simp add: sendNotification_snd)
    next
      case (Some x)
      then have "for_address (entry_address w i) (x, ok)" for ok
        by (rule formatTransaction_address)
      with False Some show ?thesis by (simp add: sendNotification_snd)
    qed
  qed
  have adv: "advanced (lastBlock (entry_data w i)) (parseInt (blockNumber t))"
    using True by (simp add: advanced_def js_gt_def)
  show ?thesis
    unfolding w' only_entry_def
    using assms m1 i1 b1 s1 adv
    by (simp add: set_lastBlock_def entry_data_def entry_address_def map_update list_update_same_conv)
qed

lemma tx_loop_Cons:
  "tx_loop cfg chan i (t # ts) w = tx_loop cfg chan i ts (snd (process_tx cfg chan i t w))"
  using process_tx_fst [of cfg chan i t w]
  by (cases "process_tx cfg chan i t w") auto

lemma tx_loop_fst: "fst (tx_loop cfg chan i ts w) = Inr ()"
  by (induction ts arbitrary: w) (simp_all only: tx_loop.simps(1) tx_loop_Cons fst_conv)

lemma tx_loop_only_entry:
  "i < length (monitoredAddresses w) \<Longrightarrow> only_entry i w (snd (tx_loop cfg chan i ts w))"
proof (induction ts arbitrary: w)
  case Nil
  then show ?case by (simp add: only_entry_refl)
next
  case (Cons t ts)
  let ?w1 = "snd (process_tx cfg chan i t w)"
  have a: "only_entry i w ?w1" using Cons.prems by (rule process_tx_only_entry)
  then have "i < length (monitoredAddresses ?w1)" using Cons.prems by (simp add: only_entry_length)
  then have "only_entry i ?w1 (snd (tx_loop cfg chan i ts ?w1))" by (rule Cons.IH)
  with a show ?case using Cons.prems by (simp only: tx_loop_Cons only_entry_trans)
qed


lemma check_address_fst: "fst (check_address cfg chan feed i w) = Inr ()"
proof -
  let ?ts = "feed (entry_address w i) (lastBlock (entry_data w i))"
  obtain r w' where rw: "tx_loop cfg chan i ?ts w = (r, w')" by (cases "tx_loop cfg chan i ?ts w")
  with tx_loop_fst [of cfg chan i ?ts w] have "r = Inr ()" by simp
  with rw show ?thesis by (simp add: check_address_def)
qed

lemma check_address_snd:
  "snd (check_address cfg chan feed i w) =
     (if feed (entry_address w i) (lastBlock (entry_data w i)) = [] then w
      else saveAddresses
             (snd (tx_loop cfg chan i (feed (entry_address w i) (lastBlock (entry_data w i))) w)))"
proof -
  let ?ts = "feed (entry_address w i) (lastBlock (entry_data w i))"
  obtain r w' where rw: "tx_loop cfg chan i ?ts w = (r, w')" by (cases "tx_loop cfg chan i ?ts w")
  with tx_loop_fst [of cfg chan i ?ts w] have "r = Inr ()" by simp
  with rw show ?thesis by (simp add: check_address_def)
qed

lemma only_entry_saveAddresses: "only_entry i w w' \<Longrightarrow> only_entry i w (saveAddresses w')"
  by (simp add: only_entry_def saveAddresses_def entry_data_def)

lemma check_address_only_entry:
  "i < length (monitoredAddresses w) \<Longrightarrow> only_entry i w (snd (check_address cfg chan feed i w))"
  by (simp add: check_address_snd only_entry_refl only_entry_saveAddresses tx_loop_only_entry)

lemma address_loop_Cons:
  "address_loop cfg chan feed (i # js) w =
     address_loop cfg chan feed js (snd (check_address cfg chan feed i w))"
  using check_address_fst [of cfg chan feed i w]
  by (cases "check_address cfg chan feed i w") auto

lemma address_loop_fst: "fst (address_loop cfg chan feed js w) = Inr ()"
  by (induction js arbitrary: w) (simp_all only: address_loop.simps(1) address_loop_Cons fst_conv)

section \<open>The claims\<close>

subsection \<open>C1: the cursor never decreases\<close>

lemma all_advanced_refl: "all_advanced w w"
  by (simp add: all_advanced_def advanced_refl)

lemma all_advanced_length:
  "all_advanced w w' \<Longrightarrow> length (monitoredAddresses w') = length (monitoredAddresses w)"
  unfolding all_advanced_def by (metis length_map)

lemma all_advanced_trans:
  assumes "all_advanced w w1" "all_advanced w1 w2"
  shows "all_advanced w w2"
proof -
  have l: "length (monitoredAddresses w1) = length (monitoredAddresses w)"
    using assms(1) by (rule all_advanced_length)
  show ?thesis
    using assms l unfolding all_advanced_def by (auto intro: advanced_trans)
qed

lemma only_entry_all_advanced:
  assumes "only_entry j w w'"
  shows "all_advanced w w'"
proof -
  have "advanced (lastBlock (entry_data w i)) (lastBlock (entry_data w' i))" for i
  proof (cases "i = j")
    case True
    with assms show ?thesis by (simp add: only_entry_def)
  next
    case False
    with assms have "monitoredAddresses w' ! i = monitoredAddresses w ! i"
      by (simp add: only_entry_def)
    then show ?thesis by (simp add: entry_data_def advanced_refl)
  qed
  with assms show ?thesis by (simp add: all_advanced_def only_entry_def)
qed

lemma address_loop_all_advanced:
  "\<forall>j\<in>set js. j < length (monitoredAddresses w)
     \<Longrightarrow> all_advanced w (snd (address_loop cfg chan feed js w))"
proof (induction js arbitrary: w)
  case Nil
  then show ?case by (simp add: all_advanced_refl)
next
  case (Cons j js)
  let ?w1 = "snd (check_address cfg chan feed j w)"
  have "only_entry j w ?w1" using Cons.prems by (simp add: check_address_only_entry)
  then have a: "all_advanced w ?w1" by (rule only_entry_all_advanced)
  then have "length (monitoredAddresses ?w1) = length (monitoredAddresses w)"
    by (rule all_advanced_length)
  with Cons.prems have "\<forall>j\<in>set js. j < length (monitoredAddresses ?w1)" by simp
  then have "all_advanced ?w1 (snd (address_loop cfg chan feed js ?w1))" by (rule Cons.IH)
  with a show ?case by (simp only: address_loop_Cons all_advanced_trans)
qed

lemma checkTransactions_all_advanced:
  "all_advanced w (snd (checkTransactions cfg chan feed w))"
  unfolding checkTransactions_def by (rule address_loop_all_advanced) simp

text \<open>
  The step model agrees with the functions of the tick: the inner loop's body, run to the
  \<open>await\<close> and resumed at once, is \<open>process_tx\<close>, and a tick that takes all its steps
  alone is \<open>checkTransactions\<close>. So a tick that nothing interrupts lowers no cursor
  (\<open>checkTransactions_all_advanced\<close>).
\<close>

lemma loop_body_alone:
  "(case tick_step cfg chan feed (Testing i (t # ts) js) w of
      (Awaiting j b r q, w') \<Rightarrow> tick_step cfg chan feed (Awaiting j b r q) w'
    | (k, w') \<Rightarrow> (k, w')) = (Testing i ts js, snd (process_tx cfg chan i t w))"
  by (simp add: process_tx_snd)

lemma run_alone_add:
  "run_alone cfg chan feed (m + n) k w =
     run_alone cfg chan feed n (fst (run_alone cfg chan feed m k w))
       (snd (run_alone cfg chan feed m k w))"
  by (induction m arbitrary: k w) simp_all

lemma run_alone_tx_loop:
  "\<exists>n. run_alone cfg chan feed n (Testing i ts js) w =
         (Fetching js, saveAddresses (snd (tx_loop cfg chan i ts w)))"
proof (induction ts arbitrary: w)
  case Nil
  have "run_alone cfg chan feed (Suc 0) (Testing i [] js) w = (Fetching js, saveAddresses w)"
    by simp
  then show ?case by (metis tx_loop.simps(1) snd_conv)
next
  case (Cons t ts)
  let ?w1 = "snd (process_tx cfg chan i t w)"
  obtain n where n: "run_alone cfg chan feed n (Testing i ts js) ?w1 =
      (Fetching js, saveAddresses (snd (tx_loop cfg chan i ts ?w1)))"
    using Cons.IH by blast
  have "run_alone cfg chan feed 2 (Testing i (t # ts) js) w = (Testing i ts js, ?w1) \<or>
        run_alone cfg chan feed 1 (Testing i (t # ts) js) w = (Testing i ts js, ?w1)"
    by (simp add: process_tx_snd numeral_2_eq_2)
  then obtain m where m: "run_alone cfg chan feed m (Testing i (t # ts) js) w = (Testing i ts js, ?w1)"
    by blast
  have "run_alone cfg chan feed (m + n) (Testing i (t # ts) js) w =
          (Fetching js, saveAddresses (snd (tx_loop cfg chan i ts ?w1)))"
    by (simp only: run_alone_add m fst_conv snd_conv n)
  then show ?case by (simp only: tx_loop_Cons) blast
qed

lemma run_alone_address_loop:
  "\<exists>n. run_alone cfg chan feed n (Fetching js) w =
         (Returned, snd (address_loop cfg chan feed js w))"
proof (induction js arbitrary: w)
  case Nil
  have "run_alone cfg chan feed (Suc 0) (Fetching []) w = (Returned, w)" by simp
  then show ?case by (metis address_loop.simps(1) snd_conv)
next
  case (Cons i js)
  let ?ts = "feed (entry_address w i) (lastBlock (entry_data w i))"
  let ?w1 = "snd (check_address cfg chan feed i w)"
  obtain n where n: "run_alone cfg chan feed n (Fetching js) ?w1 =
      (Returned, snd (address_loop cfg chan feed js ?w1))"
    using Cons.IH by blast
  have "\<exists>m. run_alone cfg chan feed m (Fetching (i # js)) w = (Fetching js, ?w1)"
  proof (cases "?ts = []")
    case True
    then have "run_alone cfg chan feed (Suc 0) (Fetching (i # js)) w = (Fetching js, ?w1)"
      by (simp add: check_address_snd)
    then show ?thesis by blast
  next
    case False
    obtain l where l: "run_alone cfg chan feed l (Testing i ?ts js) w =
        (Fetching js, saveAddresses (snd (tx_loop cfg chan i ?ts w)))"
      using run_alone_tx_loop by blast
    from False have "run_alone cfg chan feed (Suc l) (Fetching (i # js)) w = (Fetching js, ?w1)"
      by (simp add: check_address_snd l)
    then show ?thesis by blast
  qed
  then obtain m where m: "run_alone cfg chan feed m (Fetching (i # js)) w = (Fetching js, ?w1)"
    by blast
  have "run_alone cfg chan feed (m + n) (Fetching (i # js)) w =
          (Returned, snd (address_loop cfg chan feed js ?w1))"
    by (simp only: run_alone_add m fst_conv snd_conv n)
  then show ?case by (simp only: address_loop_Cons) blast
qed

lemma tick_alone:
  "\<exists>n. run_alone cfg chan feed n (start_tick w) w =
         (Returned, snd (checkTransactions cfg chan feed w))"
  unfolding start_tick_def checkTransactions_def by (rule run_alone_address_loop)

text \<open>
  C1. The claim: \<open>lastBlock\<close> of a monitored address never decreases over the life of
  the process outside the start-up pass, because within a tick it is assigned only when
  the record's block number is strictly greater than the current \<open>lastBlock\<close>.

  The code makes the test and the assignment in two steps with the \<open>await\<close> of the send
  between them, and the timer starts ticks that overlap. In the example the entry stands
  at block 100. The first tick passes the test on block 101 and waits for its send; the
  second tick, answered with blocks 101 and 105, runs to its end, leaves the cursor at 105
  and writes it to the snapshot; the first tick resumes and assigns the 101 that it tested
  against 100: the cursor goes from 105 down to 101, and the first tick writes 101 to the
  snapshot when its loop ends. Every assignment of the run passed the test when it was
  made, and no step of the run belongs to the start-up pass.
\<close>

theorem overlapping_ticks_lower_cursor:
  "isInitializing ex_world = False \<and>
   lastBlock (entry_data ex_world 0) = Fin 100 \<and>
   map snd (fst (run_schedule ex_cfg (\<lambda>n. True) [0, 0] ex_ticks ex_world)) =
     [Awaiting 0 (Fin 101) [] [], Fetching [0]] \<and>
   map snd (fst (run_schedule ex_cfg (\<lambda>n. True) ex_second_tick_done ex_ticks ex_world)) =
     [Awaiting 0 (Fin 101) [] [], Returned] \<and>
   lastBlock (entry_data (snd (run_schedule ex_cfg (\<lambda>n. True) ex_second_tick_done ex_ticks ex_world)) 0) =
     Fin 105 \<and>
   lastBlock (entry_data (snd (run_schedule ex_cfg (\<lambda>n. True) ex_first_tick_resumed ex_ticks ex_world)) 0) =
     Fin 101 \<and>
   js_lt (lastBlock (entry_data (snd (run_schedule ex_cfg (\<lambda>n. True) ex_first_tick_resumed ex_ticks ex_world)) 0))
     (lastBlock (entry_data (snd (run_schedule ex_cfg (\<lambda>n. True) ex_second_tick_done ex_ticks ex_world)) 0)) \<and>
   map snd (fst (run_schedule ex_cfg (\<lambda>n. True) ex_first_tick_done ex_ticks ex_world)) =
     [Returned, Returned] \<and>
   map (map (lastBlock \<circ> snd))
     (addressesFile (snd (run_schedule ex_cfg (\<lambda>n. True) ex_first_tick_done ex_ticks ex_world))) =
     [[Fin 105], [Fin 101]]"
  by code_simp

subsection \<open>C2: nothing at or below the cursor is announced\<close>







subsection \<open>C3: the start-up pass\<close>

lemma sync_address_snd:
  "sync_address feed i w =
     (if feed (entry_address w i) (Fin 0) = [] then w
      else set_lastBlock i
             (Math_max (map (\<lambda>t. parseInt (blockNumber t)) (feed (entry_address w i) (Fin 0)))) w)"
  by (simp add: sync_address_def)

lemma sync_address_keys:
  "map fst (monitoredAddresses (sync_address feed j w)) = map fst (monitoredAddresses w)"
proof (cases "j < length (monitoredAddresses w)")
  case True
  then show ?thesis
    by (simp add: sync_address_snd set_lastBlock_def entry_address_def map_update list_update_same_conv)
next
  case False
  then show ?thesis by (simp add: sync_address_snd set_lastBlock_def list_update_beyond)
qed

lemma sync_address_other:
  "i \<noteq> j \<Longrightarrow> monitoredAddresses (sync_address feed j w) ! i = monitoredAddresses w ! i"
  by (simp add: sync_address_snd set_lastBlock_def)

lemma sync_address_data:
  "i < length (monitoredAddresses w) \<Longrightarrow>
   entry_data (sync_address feed i w) i =
     (entry_data w i)
       \<lparr>lastBlock :=
          (if feed (entry_address w i) (Fin 0) = [] then lastBlock (entry_data w i)
           else Math_max (map (\<lambda>t. parseInt (blockNumber t)) (feed (entry_address w i) (Fin 0))))\<rparr>"
  by (simp add: sync_address_snd set_lastBlock_def entry_data_def)

lemma fold_sync_address:
  assumes "distinct js" "i < length (monitoredAddresses w)"
  shows "map fst (monitoredAddresses (fold (sync_address feed) js w)) = map fst (monitoredAddresses w) \<and>
         entry_data (fold (sync_address feed) js w) i =
           (if i \<in> set js then entry_data (sync_address feed i w) i else entry_data w i)"
  using assms
proof (induction js arbitrary: w)
  case Nil
  then show ?case by simp
next
  case (Cons j js)
  let ?w1 = "sync_address feed j w"
  have keys: "map fst (monitoredAddresses ?w1) = map fst (monitoredAddresses w)"
    by (rule sync_address_keys)
  then have len: "length (monitoredAddresses ?w1) = length (monitoredAddresses w)"
    by (metis length_map)
  have ih: "map fst (monitoredAddresses (fold (sync_address feed) js ?w1)) = map fst (monitoredAddresses ?w1) \<and>
         entry_data (fold (sync_address feed) js ?w1) i =
           (if i \<in> set js then entry_data (sync_address feed i ?w1) i else entry_data ?w1 i)"
    using Cons.prems len by (intro Cons.IH) simp_all
  have d: "entry_data (sync_address feed i ?w1) i = entry_data (sync_address feed i w) i" if "i \<noteq> j"
  proof -
    from that have e: "monitoredAddresses ?w1 ! i = monitoredAddresses w ! i"
      by (rule sync_address_other)
    then have "entry_data ?w1 i = entry_data w i" "entry_address ?w1 i = entry_address w i"
      by (simp_all add: entry_data_def entry_address_def)
    with Cons.prems(2) len show ?thesis by (simp add: sync_address_data)
  qed
  have o: "entry_data ?w1 i = entry_data w i" if "i \<noteq> j"
    using that by (simp add: entry_data_def sync_address_other)
  from ih keys d o Cons.prems(1) show ?case by auto
qed

lemma init_snd:
  assumes "botToken cfg \<noteq> []" "chatId cfg \<noteq> []" "apiKey cfg \<noteq> []"
  shows "fst (init cfg chan feed w) = Inr ()"
    and "monitoredAddresses (snd (init cfg chan feed w)) =
         monitoredAddresses (fold (sync_address feed) [0..<length (monitoredAddresses w)] w)"
    and "isInitializing (snd (init cfg chan feed w)) = False"
  using assms
  by (simp_all add: init_def sendNotification_fst sendNotification_frame saveAddresses_def)

text \<open>
  What the start-up pass does to a cursor: it becomes \<open>Math.max\<close> of the parsed block
  numbers of the response from block 0, whatever it was, and stays when the response is
  empty. So it is not below its prior value when that maximum is at least the prior value.
\<close>

lemma init_cursor:
  assumes "botToken cfg \<noteq> []" "chatId cfg \<noteq> []" "apiKey cfg \<noteq> []"
    and "i < length (monitoredAddresses w)"
  shows "entry_address (snd (init cfg chan feed w)) i = entry_address w i \<and>
    lastBlock (entry_data (snd (init cfg chan feed w)) i) =
      (if feed (entry_address w i) (Fin 0) = [] then lastBlock (entry_data w i)
       else Math_max (map (\<lambda>t. parseInt (blockNumber t)) (feed (entry_address w i) (Fin 0)))) \<and>
    (feed (entry_address w i) (Fin 0) = [] \<or>
     js_le (lastBlock (entry_data w i))
       (Math_max (map (\<lambda>t. parseInt (blockNumber t)) (feed (entry_address w i) (Fin 0)))) \<longrightarrow>
     \<not> js_lt (lastBlock (entry_data (snd (init cfg chan feed w)) i)) (lastBlock (entry_data w i)))"
proof -
  let ?w1 = "fold (sync_address feed) [0..<length (monitoredAddresses w)] w"
  have m: "monitoredAddresses (snd (init cfg chan feed w)) = monitoredAddresses ?w1"
    using assms(1-3) by (rule init_snd)
  have f: "map fst (monitoredAddresses ?w1) = map fst (monitoredAddresses w) \<and>
         entry_data ?w1 i =
           (if i \<in> set [0..<length (monitoredAddresses w)] then entry_data (sync_address feed i w) i
            else entry_data w i)"
    using assms(4) by (intro fold_sync_address) simp_all
  then have "map fst (monitoredAddresses (snd (init cfg chan feed w))) = map fst (monitoredAddresses w)"
    using m by simp
  then have k: "entry_address (snd (init cfg chan feed w)) i = entry_address w i"
    using assms(4) by (rule entry_address_eq)
  have "entry_data (snd (init cfg chan feed w)) i = entry_data ?w1 i"
    using m by (simp add: entry_data_def)
  with f assms(4) have l: "lastBlock (entry_data (snd (init cfg chan feed w)) i) =
      (if feed (entry_address w i) (Fin 0) = [] then lastBlock (entry_data w i)
       else Math_max (map (\<lambda>t. parseInt (blockNumber t)) (feed (entry_address w i) (Fin 0))))"
    by (simp add: sync_address_data)
  from k l show ?thesis
    by (auto simp: js_lt_irrefl js_le_def js_ge_def)
qed

text \<open>
  C3, where the code departs from it. The state monitors the address from block 100; at
  start-up the explorer returns records whose greatest block is 9; \<open>init\<close> sets the cursor
  to 9, below its prior value (and writes that to the file). A tick that follows takes a
  record of block 50, which lies behind the cursor that was persisted, for new: after the
  start-up notification the log of sends holds an alert about the address.
\<close>

theorem bootstrap_regresses_cursor:
  "lastBlock (entry_data ex_world 0) = Fin 100 \<and>
   Math_max (map (\<lambda>t. parseInt (blockNumber t)) (ex_old_feed ex_address (Fin 0))) = Fin 9 \<and>
   fst (init ex_cfg (\<lambda>n. True) ex_old_feed ex_world) = Inr () \<and>
   lastBlock (entry_data (snd (init ex_cfg (\<lambda>n. True) ex_old_feed ex_world)) 0) = Fin 9 \<and>
   js_lt (lastBlock (entry_data (snd (init ex_cfg (\<lambda>n. True) ex_old_feed ex_world)) 0))
     (lastBlock (entry_data ex_world 0)) \<and>
   addressesFile (snd (init ex_cfg (\<lambda>n. True) ex_old_feed ex_world)) =
     [[(ex_address, \<lparr>lastBlock = Fin 9, remark = None\<rparr>)]] \<and>
   map (for_address ex_address)
     (sendAttempts (snd (checkTransactions ex_cfg (\<lambda>n. True) ex_history_feed
        (snd (init ex_cfg (\<lambda>n. True) ex_old_feed ex_world))))) = [False, True]"
  by code_simp

subsection \<open>C4: a blacklisted contract is silent and still moves the cursor\<close>

text \<open>
  C4. For every record whose lower-cased token contract address is a key of the blacklist
  map, \<open>formatTransaction\<close> returns \<open>null\<close>, whatever the monitored address (so whatever the
  direction), the amount and the threshold; and when the record's block number exceeds
  the cursor, the tick's step for it sends nothing, does not throw, and sets \<open>lastBlock\<close>
  to that block number.
\<close>

theorem blacklisted_never_notifies:
  assumes "toLowerCase (contractAddress t) \<in> set (map fst (blacklistedContracts w))"
  shows "formatTransaction cfg w t a = None \<and>
    (i < length (monitoredAddresses w) \<and>
     js_gt (parseInt (blockNumber t)) (lastBlock (entry_data w i)) \<longrightarrow>
       fst (process_tx cfg chan i t w) = Inr () \<and>
       lastBlock (entry_data (snd (process_tx cfg chan i t w)) i) = parseInt (blockNumber t) \<and>
       sendAttempts (snd (process_tx cfg chan i t w)) = sendAttempts w)"
proof -
  have n: "formatTransaction cfg w t a = None" for a
    using assms by (simp add: formatTransaction_def js_get_own)
  then have s: "sendAttempts (snd (process_tx cfg chan i t w)) = sendAttempts w"
    by (simp add: process_tx_snd set_lastBlock_def sendNotification_snd)
  have b: "lastBlock (entry_data (snd (process_tx cfg chan i t w)) i) = parseInt (blockNumber t)"
    if "i < length (monitoredAddresses w)"
      "js_gt (parseInt (blockNumber t)) (lastBlock (entry_data w i))"
    using that by (simp add: process_tx_lastBlock)
  from n s b show ?thesis by (simp add: process_tx_fst)
qed

theorem blacklisted_never_notifies_witness:
  "toLowerCase (contractAddress
       (ex_transfer ''101'' ex_address ''0x00000000000000000000000000000000000000BB''
          ''5000000000000000000000'' ''18''))
     \<in> set (map fst (blacklistedContracts ex_world)) \<and>
   0 < length (monitoredAddresses ex_world) \<and>
   js_gt (parseInt (blockNumber
       (ex_transfer ''101'' ex_address ''0x00000000000000000000000000000000000000BB''
          ''5000000000000000000000'' ''18''))) (lastBlock (entry_data ex_world 0)) \<and>
   formatTransaction ex_cfg ex_world
     (ex_transfer ''101'' ex_address ''0x00000000000000000000000000000000000000BB''
        ''5000000000000000000000'' ''18'') ex_address = None \<and>
   lastBlock (entry_data (snd (process_tx ex_cfg (\<lambda>n. True) 0
     (ex_transfer ''101'' ex_address ''0x00000000000000000000000000000000000000BB''
        ''5000000000000000000000'' ''18'') ex_world)) 0) = Fin 101 \<and>
   sendAttempts (snd (process_tx ex_cfg (\<lambda>n. True) 0
     (ex_transfer ''101'' ex_address ''0x00000000000000000000000000000000000000BB''
        ''5000000000000000000000'' ''18'') ex_world)) = []"
proof -
  let ?t = "ex_transfer ''101'' ex_address ''0x00000000000000000000000000000000000000BB''
              ''5000000000000000000000'' ''18''"
  have b: "toLowerCase (contractAddress ?t) \<in> set (map fst (blacklistedContracts ex_world))"
    by code_simp
  have l: "0 < length (monitoredAddresses ex_world)" by code_simp
  have g: "js_gt (parseInt (blockNumber ?t)) (lastBlock (entry_data ex_world 0))" by code_simp
  have p: "parseInt (blockNumber ?t) = Fin 101" by code_simp
  have e: "sendAttempts ex_world = []" by code_simp
  from blacklisted_never_notifies [OF b, of ex_cfg ex_address 0 "\<lambda>n. True"] b l g p e
  show ?thesis by simp
qed

subsection \<open>C5: the threshold on incoming transfers\<close>

text \<open>
  C5, as stated, fails at the amount test itself: an incoming transfer of 5 units of a
  token with \<open>tokenDecimal\<close> \<open>0\<close>, whose contract is not blacklisted, has the normalized
  amount \<open>5 / 10^0 = 5\<close>, which is not below the threshold \<open>0.1\<close>, and is suppressed: the
  code divides by \<open>10^18\<close>. It also fails where the amount test is not reached: an incoming
  transfer of 5000 units of a blacklisted token is suppressed too.
\<close>

theorem threshold_not_exact_counterexample:
  "isIncoming ex_zero_decimal_transfer ex_address \<and>
   js_truthy (js_get (blacklistedContracts ex_world)
      (toLowerCase (contractAddress ex_zero_decimal_transfer))) = False \<and>
   parseInt (tokenDecimal ex_zero_decimal_transfer) = Fin 0 \<and>
   js_div (parseInt (tx_value ex_zero_decimal_transfer))
     (pow10 (engine_pow10 ex_cfg) (parseInt (tokenDecimal ex_zero_decimal_transfer))) = Fin 5 \<and>
   js_lt (Fin 5) (minTransferAmount ex_cfg) = False \<and>
   formatTransaction ex_cfg ex_world ex_zero_decimal_transfer ex_address = None \<and>
   isIncoming ex_blacklisted_transfer ex_address \<and>
   amount ex_cfg ex_blacklisted_transfer = Fin 5000 \<and>
   js_lt (amount ex_cfg ex_blacklisted_transfer) (minTransferAmount ex_cfg) = False \<and>
   formatTransaction ex_cfg ex_world ex_blacklisted_transfer ex_address = None"
  by code_simp

text \<open>
  C5, amended. For every record whose token contract is not blacklisted (the lookup in
  the blacklist map is falsy): an incoming record (\<open>to\<close> equals the monitored address after
  lower-casing both) is suppressed exactly when its amount is less than the configured
  threshold, so an amount equal to the threshold is not suppressed; an outgoing record is
  never suppressed. The amount is \<open>rawValue / Math.pow(10, d)\<close> on doubles, for whatever
  the engine's \<open>Math.pow\<close> returns, where \<open>d\<close> is the parsed \<open>tokenDecimal\<close> when that is a
  number other than zero, and 18 when it is not a number.
\<close>

theorem dust_suppression_threshold:
  assumes "\<not> js_truthy (js_get (blacklistedContracts w) (toLowerCase (contractAddress t)))"
  shows "(isIncoming t a \<longrightarrow>
            (formatTransaction cfg w t a = None) = js_lt (amount cfg t) (minTransferAmount cfg)) \<and>
         (isIncoming t a \<and> amount cfg t = minTransferAmount cfg \<longrightarrow>
            formatTransaction cfg w t a \<noteq> None) \<and>
         (\<not> isIncoming t a \<longrightarrow> formatTransaction cfg w t a \<noteq> None) \<and>
         (js_truthy_num (parseInt (tokenDecimal t)) \<longrightarrow>
            amount cfg t =
              js_div (parseInt (tx_value t)) (pow10 (engine_pow10 cfg) (parseInt (tokenDecimal t)))) \<and>
         (parseInt (tokenDecimal t) = NaN \<longrightarrow>
            amount cfg t = js_div (parseInt (tx_value t)) (Fin (10 ^ 18)))"
  using assms
  by (auto simp: formatTransaction_def amount_def decimals_def js_truthy_num_def js_lt_irrefl
        pow10_18 simp del: pow10.simps)

theorem dust_suppression_threshold_witness:
  "\<not> js_truthy (js_get (blacklistedContracts ex_world)
        (toLowerCase (contractAddress ex_threshold_transfer))) \<and>
   isIncoming ex_threshold_transfer ex_address \<and>
   js_truthy_num (parseInt (tokenDecimal ex_threshold_transfer)) \<and>
   amount ex_cfg ex_threshold_transfer = minTransferAmount ex_cfg \<and>
   amount ex_cfg ex_threshold_transfer =
     js_div (parseInt (tx_value ex_threshold_transfer))
       (pow10 (engine_pow10 ex_cfg) (parseInt (tokenDecimal ex_threshold_transfer))) \<and>
   \<not> js_lt (amount ex_cfg ex_threshold_transfer) (minTransferAmount ex_cfg) \<and>
   formatTransaction ex_cfg ex_world ex_threshold_transfer ex_address \<noteq> None"
proof -
  have b: "\<not> js_truthy (js_get (blacklistedContracts ex_world)
        (toLowerCase (contractAddress ex_threshold_transfer)))" by code_simp
  have i: "isIncoming ex_threshold_transfer ex_address" by code_simp
  have d: "js_truthy_num (parseInt (tokenDecimal ex_threshold_transfer))" by code_simp
  have e: "amount ex_cfg ex_threshold_transfer = minTransferAmount ex_cfg" by code_simp
  from dust_suppression_threshold [OF b, of ex_address ex_cfg] b i d e
  show ?thesis by (simp add: js_lt_irrefl)
qed

subsection \<open>C6: when the snapshot is written\<close>

lemma check_address_saves:
  "addressesFile (snd (check_address cfg chan feed i w)) =
     (if feed (entry_address w i) (lastBlock (entry_data w i)) = [] then addressesFile w
      else addressesFile w @ [monitoredAddresses (snd (check_address cfg chan feed i w))])"
proof -
  have "addressesFile (snd (tx_loop cfg chan i ts w)) = addressesFile w" for ts
  proof (induction ts arbitrary: w)
    case Nil
    then show ?case by simp
  next
    case (Cons t ts)
    have "addressesFile (snd (process_tx cfg chan i t w)) = addressesFile w"
      by (simp add: process_tx_snd set_lastBlock_def sendNotification_frame)
    with Cons.IH [of "snd (process_tx cfg chan i t w)"] show ?case
      by (simp only: tx_loop_Cons)
  qed
  then show ?thesis by (simp add: check_address_snd saveAddresses_def)
qed

lemma address_loop_saves:
  assumes "distinct js" "\<forall>j\<in>set js. j < length (monitoredAddresses w)"
  shows "length (addressesFile (snd (address_loop cfg chan feed js w))) =
           length (addressesFile w) + length (filter (has_response feed w) js)"
  using assms
proof (induction js arbitrary: w)
  case Nil
  then show ?case by simp
next
  case (Cons j js)
  let ?w1 = "snd (check_address cfg chan feed j w)"
  have jl: "j < length (monitoredAddresses w)" using Cons.prems(2) by simp
  then have oe: "only_entry j w ?w1" by (rule check_address_only_entry)
  then have len: "length (monitoredAddresses ?w1) = length (monitoredAddresses w)"
    and keys: "map fst (monitoredAddresses ?w1) = map fst (monitoredAddresses w)"
    by (simp_all add: only_entry_def)
  have same: "has_response feed ?w1 k = has_response feed w k" if "k \<in> set js" for k
  proof -
    from that Cons.prems(1) have "k \<noteq> j" by auto
    with oe have "monitoredAddresses ?w1 ! k = monitoredAddresses w ! k"
      by (simp add: only_entry_def)
    then show ?thesis by (simp add: has_response_def entry_address_def entry_data_def)
  qed
  then have f: "filter (has_response feed ?w1) js = filter (has_response feed w) js"
    by (auto intro: filter_cong)
  have "length (addressesFile (snd (address_loop cfg chan feed js ?w1))) =
          length (addressesFile ?w1) + length (filter (has_response feed ?w1) js)"
    using Cons.prems len by (intro Cons.IH) simp_all
  moreover have "length (addressesFile ?w1) =
          length (addressesFile w) + (if has_response feed w j then 1 else 0)"
    by (simp add: check_address_saves has_response_def)
  ultimately show ?case by (simp add: address_loop_Cons f del: address_loop.simps(2))
qed

text \<open>
  C6, as stated, fails: the snapshot is written although the response yields no new
  record. The state monitors the address from block 100 and has written nothing; the
  response is the one record of block 100, which is not above the cursor; after the tick
  the file has been written once.
\<close>

theorem save_without_new_record_counterexample:
  "list_all (\<lambda>t. \<not> js_gt (parseInt (blockNumber t)) (lastBlock (entry_data ex_world 0)))
     (ex_stale_feed (entry_address ex_world 0) (lastBlock (entry_data ex_world 0))) \<and>
   addressesFile ex_world = [] \<and>
   addressesFile (snd (checkTransactions ex_cfg (\<lambda>n. True) ex_stale_feed ex_world)) =
     [monitoredAddresses ex_world]"
  by code_simp

text \<open>
  C6, amended. During a poll tick the snapshot is written for an address exactly when the
  explorer's response for that address is not empty, whether or not one of its records is
  new: the work on entry \<open>i\<close> appends one content to the file in that case and none
  otherwise, and a tick writes as many times as there are entries with a response. In
  the scenario (address at \<open>lastBlock = 100\<close>; records at blocks 100, 101 and 105, the
  second of a blacklisted token, the third an incoming transfer below the threshold) the
  tick writes once, sends nothing and ends with \<open>lastBlock = 105\<close>.
\<close>

theorem snapshot_written_iff_response_nonempty:
  "addressesFile (snd (check_address cfg chan feed i w)) =
     (if feed (entry_address w i) (lastBlock (entry_data w i)) = [] then addressesFile w
      else addressesFile w @ [monitoredAddresses (snd (check_address cfg chan feed i w))]) \<and>
   length (addressesFile (snd (checkTransactions cfg chan feed w))) =
     length (addressesFile w) +
     length (filter (has_response feed w) [0..<length (monitoredAddresses w)]) \<and>
   lastBlock (entry_data (snd (checkTransactions ex_cfg (\<lambda>n. True) ex_scenario_feed ex_world)) 0) =
     Fin 105 \<and>
   sendAttempts (snd (checkTransactions ex_cfg (\<lambda>n. True) ex_scenario_feed ex_world)) = [] \<and>
   addressesFile (snd (checkTransactions ex_cfg (\<lambda>n. True) ex_scenario_feed ex_world)) =
     [[(ex_address, \<lparr>lastBlock = Fin 105, remark = None\<rparr>)]]"
proof -
  have a: "length (addressesFile (snd (checkTransactions cfg chan feed w))) =
     length (addressesFile w) +
     length (filter (has_response feed w) [0..<length (monitoredAddresses w)])"
    unfolding checkTransactions_def by (rule address_loop_saves) simp_all
  have b: "lastBlock (entry_data (snd (checkTransactions ex_cfg (\<lambda>n. True) ex_scenario_feed ex_world)) 0) =
     Fin 105"
    by code_simp
  have c: "sendAttempts (snd (checkTransactions ex_cfg (\<lambda>n. True) ex_scenario_feed ex_world)) = []"
    by code_simp
  have d: "addressesFile (snd (checkTransactions ex_cfg (\<lambda>n. True) ex_scenario_feed ex_world)) =
     [[(ex_address, \<lparr>lastBlock = Fin 105, remark = None\<rparr>)]]"
    by code_simp
  from check_address_saves [of cfg chan feed i w] a b c d show ?thesis by simp
qed

subsection \<open>C7: formatAmount\<close>

text \<open>
  C7, as stated, fails: \<open>1e31\<close> is a numeric value and is at least \<open>1e9\<close>, yet it is not
  mapped to \<open>1e31 / 1e9\<close> at 2 decimals and \<open>B\<close>: \<open>toFixed\<close> answers a value of \<open>1e21\<close> or
  more with its \<open>toString\<close> form.
\<close>

theorem formatAmount_large_counterexample:
  "js_ge (fl (10 ^ 31)) (Fin 1000000000) \<and>
   js_div (fl (10 ^ 31)) (Fin 1000000000) = Fin (10 ^ 22) \<and>
   formatAmount (fl (10 ^ 31)) = ''1e+22B'' \<and>
   claimed_formatAmount (fl (10 ^ 31)) = ''10000000000000000000000.00B''"
  by code_simp

text \<open>
  C7, amended. \<open>formatAmount\<close> maps a numeric value \<open>v\<close> to \<open>v/1e9\<close> at 2 decimals and \<open>B\<close>
  when \<open>v >= 1e9\<close>, to \<open>v/1e6\<close> at 2 decimals and \<open>M\<close> when \<open>1e6 <= v < 1e9\<close>, to \<open>v/1e3\<close> at 2
  decimals and \<open>K\<close> when \<open>1e3 <= v < 1e6\<close>, and otherwise to \<open>v\<close> at 2 decimals, provided
  the value so rendered is finite and below \<open>1e21\<close> in magnitude; 1500 is mapped to
  \<open>1.50K\<close>, 2500000 to \<open>2.50M\<close> and 999 to \<open>999.00\<close>.
\<close>

theorem formatAmount_two_decimals:
  assumes "scaled v = Fin q" and "\<bar>q\<bar> < 10 ^ 21"
  shows "formatAmount v = claimed_formatAmount v \<and>
         formatAmount (Fin 1500) = ''1.50K'' \<and>
         formatAmount (Fin 2500000) = ''2.50M'' \<and>
         formatAmount (Fin 999) = ''999.00''"
proof -
  have t: "toFixed 2 (Fin q) = two_decimals (Fin q)" using assms(2) by simp
  have m: "js_lt v (Fin 1000000000)" if "js_ge v (Fin 1000000)" "\<not> js_ge v (Fin 1000000000)"
    using that by (rule js_ge_not_lt) simp
  have k: "js_lt v (Fin 1000000)" if "js_ge v (Fin 1000)" "\<not> js_ge v (Fin 1000000)"
    using that by (rule js_ge_not_lt) simp
  have a: "formatAmount v = claimed_formatAmount v"
    using assms(1) t m k unfolding formatAmount_def claimed_formatAmount_def scaled_def
    by (auto split: if_splits)
  have b: "formatAmount (Fin 1500) = ''1.50K''" by code_simp
  have c: "formatAmount (Fin 2500000) = ''2.50M''" by code_simp
  have d: "formatAmount (Fin 999) = ''999.00''" by code_simp
  from a b c d show ?thesis by simp
qed

theorem formatAmount_two_decimals_witness:
  "scaled (Fin 1500) = Fin (3 / 2) \<and> \<bar>3 / 2 :: rat\<bar> < 10 ^ 21 \<and>
   formatAmount (Fin 1500) = claimed_formatAmount (Fin 1500) \<and>
   claimed_formatAmount (Fin 1500) = ''1.50K''"
proof -
  have s: "scaled (Fin 1500) = Fin (3 / 2)" by code_simp
  have q: "\<bar>3 / 2 :: rat\<bar> < 10 ^ 21" by simp
  from formatAmount_two_decimals [OF s q] s q show ?thesis by auto
qed

subsection \<open>C8: commands that fail their validation\<close>

text \<open>
  What the handlers do when their test rejects the command: the answer, and nothing
  else. An absent key is rejected when it is not the name of an inherited property.
\<close>

lemma rejected_commands:
  assumes "chat = chatId cfg"
  shows "address_regex_test (toLowerCase (trim arg)) \<Longrightarrow>
           map_of (monitoredAddresses w) (toLowerCase (trim arg)) \<noteq> None \<Longrightarrow>
           onAdd cfg feed chat arg w = send_reply AlreadyMonitored w"
    and "map_of (monitoredAddresses w) (toLowerCase (trim arg)) = None \<Longrightarrow>
           \<not> List.member objectPrototypeKeys (toLowerCase (trim arg)) \<Longrightarrow>
           onRemove cfg chat arg w = send_reply NotMonitored w"
    and "map_of (monitoredAddresses w) (toLowerCase (trim arg)) = None \<Longrightarrow>
           \<not> List.member objectPrototypeKeys (toLowerCase (trim arg)) \<Longrightarrow>
           onRemark cfg chat arg arg2 w = send_reply NotMonitored w"
    and "address_regex_test (toLowerCase (trim arg)) \<Longrightarrow>
           map_of (blacklistedContracts w) (toLowerCase (trim arg)) \<noteq> None \<Longrightarrow>
           onBlacklist cfg now chat arg w = send_reply AlreadyBlacklisted w"
    and "map_of (blacklistedContracts w) (toLowerCase (trim arg)) = None \<Longrightarrow>
           \<not> List.member objectPrototypeKeys (toLowerCase (trim arg)) \<Longrightarrow>
           onUnblacklist cfg chat arg w = send_reply NotBlacklisted w"
  using assms
  by (auto simp: onAdd_def onRemove_def onRemark_def onBlacklist_def onUnblacklist_def js_get_def)

lemma send_reply_maps:
  "monitoredAddresses (send_reply r w) = monitoredAddresses w"
  "blacklistedContracts (send_reply r w) = blacklistedContracts w"
  "addressesFile (send_reply r w) = addressesFile w"
  "blacklistFile (send_reply r w) = blacklistFile w"
  by (simp_all add: send_reply_def)

text \<open>
  C8, where the code departs from it. \<open>constructor\<close> and \<open>__proto__\<close> are no keys of the
  two maps of the example state, yet the lookup \<open>monitoredAddresses[address]\<close> finds the
  inherited property and is truthy. \<open>/remove constructor\<close> is answered with the removal
  message and the file is written again (the map is unchanged);
  \<open>/remark __proto__ mine\<close> and \<open>/unblacklist constructor\<close> are answered with their
  success messages as well, and the state does change: the remark lands on
  \<open>Object.prototype\<close>, so every entry without a remark of its own now shows it.
\<close>

theorem absent_key_passes_validation:
  "map_of (monitoredAddresses ex_world) ''constructor'' = None \<and>
   map_of (monitoredAddresses ex_world) ''__proto__'' = None \<and>
   map_of (blacklistedContracts ex_world) ''constructor'' = None \<and>
   replies (onRemove ex_cfg ''42'' ''constructor'' ex_world) = [AddressRemoved ''constructor''] \<and>
   addressesFile (onRemove ex_cfg ''42'' ''constructor'' ex_world) = [monitoredAddresses ex_world] \<and>
   monitoredAddresses (onRemove ex_cfg ''42'' ''constructor'' ex_world) = monitoredAddresses ex_world \<and>
   replies (onRemark ex_cfg ''42'' ''__proto__'' ''mine'' ex_world) = [RemarkSet ''__proto__'' ''mine''] \<and>
   objectPrototypeRemark (onRemark ex_cfg ''42'' ''__proto__'' ''mine'' ex_world) = Some ''mine'' \<and>
   lookup_remark ex_world ex_address = None \<and>
   lookup_remark (onRemark ex_cfg ''42'' ''__proto__'' ''mine'' ex_world) ex_address = Some ''mine'' \<and>
   replies (onUnblacklist ex_cfg ''42'' ''constructor'' ex_world) =
     [ContractUnblacklisted ''constructor''] \<and>
   blacklistFile (onUnblacklist ex_cfg ''42'' ''constructor'' ex_world) =
     [blacklistedContracts ex_world]"
  by code_simp

subsection \<open>C9: a failed send is swallowed\<close>

lemma same_but_log_refl: "same_but_log w w"
  by (simp add: same_but_log_def)

lemma formatTransaction_same:
  assumes "same_but_log w w'"
  shows "formatTransaction cfg w t a = formatTransaction cfg w' t a"
proof -
  from assms have e: "monitoredAddresses w = monitoredAddresses w'"
    "blacklistedContracts w = blacklistedContracts w'"
    "objectRemark w = objectRemark w'"
    "objectPrototypeRemark w = objectPrototypeRemark w'"
    by (simp_all add: same_but_log_def)
  show ?thesis unfolding formatTransaction_def lookup_remark_def e by (rule refl)
qed

lemma sendNotification_same: "same_but_log w (snd (sendNotification chan m w))"
  by (simp add: same_but_log_def sendNotification_frame)

lemma same_but_log_trans: "same_but_log a b \<Longrightarrow> same_but_log b c \<Longrightarrow> same_but_log a c"
  by (simp add: same_but_log_def)

lemma same_but_log_sym: "same_but_log a b \<Longrightarrow> same_but_log b a"
  by (simp add: same_but_log_def)

lemma set_lastBlock_same:
  "same_but_log w w' \<Longrightarrow> same_but_log (set_lastBlock i b w) (set_lastBlock i b w')"
  by (simp add: same_but_log_def set_lastBlock_def entry_address_def entry_data_def)

lemma process_tx_same:
  assumes "same_but_log w w'"
  shows "same_but_log (snd (process_tx cfg chan i t w)) (snd (process_tx cfg chan' i t w'))"
proof -
  have e: "entry_data w i = entry_data w' i" "entry_address w i = entry_address w' i"
    "isInitializing w = isInitializing w'"
    using assms by (simp_all add: same_but_log_def entry_data_def entry_address_def)
  have f: "formatTransaction cfg w t a = formatTransaction cfg w' t a" for a
    using assms by (rule formatTransaction_same)
  have s: "same_but_log (snd (sendNotification chan m w)) (snd (sendNotification chan' m w'))" for m
    using assms sendNotification_same [of w chan m] sendNotification_same [of w' chan' m]
    by (blast intro: same_but_log_trans same_but_log_sym)
  show ?thesis
    unfolding process_tx_snd e f
    using assms s by (simp add: set_lastBlock_same)
qed

lemma tx_loop_same:
  "same_but_log w w' \<Longrightarrow>
   same_but_log (snd (tx_loop cfg chan i ts w)) (snd (tx_loop cfg chan' i ts w'))"
proof (induction ts arbitrary: w w')
  case Nil
  then show ?case by simp
next
  case (Cons t ts)
  from Cons.prems have
    "same_but_log (snd (process_tx cfg chan i t w)) (snd (process_tx cfg chan' i t w'))"
    by (rule process_tx_same)
  then show ?case by (simp only: tx_loop_Cons Cons.IH)
qed

lemma check_address_same:
  assumes "same_but_log w w'"
  shows "same_but_log (snd (check_address cfg chan feed i w)) (snd (check_address cfg chan' feed i w'))"
proof -
  have e: "entry_data w i = entry_data w' i" "entry_address w i = entry_address w' i"
    using assms by (simp_all add: same_but_log_def entry_data_def entry_address_def)
  have "same_but_log (saveAddresses a) (saveAddresses b)" if "same_but_log a b" for a b
    using that by (simp add: same_but_log_def saveAddresses_def)
  with assms tx_loop_same [OF assms] show ?thesis
    unfolding check_address_snd e by simp
qed

lemma address_loop_same:
  "same_but_log w w' \<Longrightarrow>
   same_but_log (snd (address_loop cfg chan feed js w)) (snd (address_loop cfg chan' feed js w'))"
proof (induction js arbitrary: w w')
  case Nil
  then show ?case by simp
next
  case (Cons j js)
  from Cons.prems have
    "same_but_log (snd (check_address cfg chan feed j w)) (snd (check_address cfg chan' feed j w'))"
    by (rule check_address_same)
  then show ?case by (simp only: address_loop_Cons Cons.IH)
qed

lemma checkTransactions_same:
  "same_but_log (snd (checkTransactions cfg chan feed w)) (snd (checkTransactions cfg chan' feed w))"
  unfolding checkTransactions_def by (rule address_loop_same) (rule same_but_log_refl)

text \<open>
  C9. \<open>sendNotification\<close> never throws to its caller, whether the delivery succeeds or
  fails; it calls \<open>bot.sendMessage\<close> once for a message (one entry more in the log of
  sends, with the outcome: no second try) and not at all for \<open>null\<close>, which leaves the
  state as it is. So a poll tick never throws, the address map and the file it ends
  with are those of the tick in which every delivery succeeds, and the step for a record
  above the cursor sets \<open>lastBlock\<close> to the record's block number whatever the channel
  does.
\<close>

theorem send_failure_is_swallowed:
  "fst (sendNotification chan message w) = Inr () \<and>
   sendAttempts (snd (sendNotification chan message w)) =
     sendAttempts w @
       (case message of None \<Rightarrow> [] | Some m \<Rightarrow> [(m, chan (length (sendAttempts w)))]) \<and>
   snd (sendNotification chan None w) = w \<and>
   fst (checkTransactions cfg chan feed w) = Inr () \<and>
   monitoredAddresses (snd (checkTransactions cfg chan feed w)) =
     monitoredAddresses (snd (checkTransactions cfg (\<lambda>n. True) feed w)) \<and>
   addressesFile (snd (checkTransactions cfg chan feed w)) =
     addressesFile (snd (checkTransactions cfg (\<lambda>n. True) feed w)) \<and>
   (i < length (monitoredAddresses w) \<and>
    js_gt (parseInt (blockNumber t)) (lastBlock (entry_data w i)) \<longrightarrow>
      fst (process_tx cfg chan i t w) = Inr () \<and>
      lastBlock (entry_data (snd (process_tx cfg chan i t w)) i) = parseInt (blockNumber t))"
proof -
  have a: "sendAttempts (snd (sendNotification chan message w)) =
     sendAttempts w @
       (case message of None \<Rightarrow> [] | Some m \<Rightarrow> [(m, chan (length (sendAttempts w)))])"
    by (simp add: sendNotification_snd split: option.splits)
  have b: "snd (sendNotification chan None w) = w" by (simp add: sendNotification_snd)
  have c: "fst (checkTransactions cfg chan feed w) = Inr ()"
    by (simp add: checkTransactions_def address_loop_fst)
  from checkTransactions_same [of cfg chan feed w "\<lambda>n. True"]
  have d: "monitoredAddresses (snd (checkTransactions cfg chan feed w)) =
     monitoredAddresses (snd (checkTransactions cfg (\<lambda>n. True) feed w))"
    "addressesFile (snd (checkTransactions cfg chan feed w)) =
     addressesFile (snd (checkTransactions cfg (\<lambda>n. True) feed w))"
    by (simp_all add: same_but_log_def)
  from a b c d sendNotification_fst [of chan message w] process_tx_fst [of cfg chan i t w]
    process_tx_lastBlock [of i w cfg chan t]
  show ?thesis by simp
qed

theorem send_failure_is_swallowed_witness:
  "0 < length (monitoredAddresses ex_world) \<and>
   js_gt (parseInt (blockNumber (hd (ex_outgoing_feed ex_address (Fin 100)))))
     (lastBlock (entry_data ex_world 0)) \<and>
   fst (checkTransactions ex_cfg (\<lambda>n. False) ex_outgoing_feed ex_world) = Inr () \<and>
   map snd (sendAttempts (snd (checkTransactions ex_cfg (\<lambda>n. False) ex_outgoing_feed ex_world))) =
     [False] \<and>
   consoleErrors (snd (checkTransactions ex_cfg (\<lambda>n. False) ex_outgoing_feed ex_world)) =
     [SendFailed] \<and>
   monitoredAddresses (snd (checkTransactions ex_cfg (\<lambda>n. False) ex_outgoing_feed ex_world)) =
     [(ex_address, \<lparr>lastBlock = Fin 105, remark = None\<rparr>)] \<and>
   lastBlock (entry_data (snd (process_tx ex_cfg (\<lambda>n. False) 0
      (hd (ex_outgoing_feed ex_address (Fin 100))) ex_world)) 0) = Fin 105"
proof -
  let ?t = "hd (ex_outgoing_feed ex_address (Fin 100))"
  have l: "0 < length (monitoredAddresses ex_world)" by code_simp
  have g: "js_gt (parseInt (blockNumber ?t)) (lastBlock (entry_data ex_world 0))" by code_simp
  have p: "parseInt (blockNumber ?t) = Fin 105" by code_simp
  have s: "map snd (sendAttempts (snd (checkTransactions ex_cfg (\<lambda>n. False) ex_outgoing_feed ex_world))) =
     [False]" by code_simp
  have e: "consoleErrors (snd (checkTransactions ex_cfg (\<lambda>n. False) ex_outgoing_feed ex_world)) =
     [SendFailed]" by code_simp
  have m: "monitoredAddresses (snd (checkTransactions ex_cfg (\<lambda>n. True) ex_outgoing_feed ex_world)) =
     [(ex_address, \<lparr>lastBlock = Fin 105, remark = None\<rparr>)]" by code_simp
  from send_failure_is_swallowed
         [where chan = "\<lambda>n. False" and cfg = ex_cfg and feed = ex_outgoing_feed and w = ex_world
            and i = 0 and t = ?t and message = None]
       l g p s e m
  show ?thesis by simp
qed

subsection \<open>C10: the default of 18 decimals\<close>

text \<open>
  C10. For every record whose \<open>tokenDecimal\<close> parses to 0 or to no number,
  \<open>formatTransaction\<close> works with 18 decimals: the amount is \<open>rawValue / 10^18\<close> (on
  doubles), also for a token without decimals, and not \<open>rawValue\<close>. This can suppress an
  incoming transfer of such a token as dust although its raw value is at or above the
  threshold: 5 units of a zero-decimal token, with the threshold 0.1, give the amount
  \<open>5e-18\<close> and no alert.
\<close>

theorem decimals_default_18:
  "(parseInt (tokenDecimal t) = NaN \<or> parseInt (tokenDecimal t) = Fin 0 \<longrightarrow>
      decimals t = Fin 18 \<and>
      amount cfg t = js_div (parseInt (tx_value t)) (Fin (10 ^ 18))) \<and>
   parseInt (tokenDecimal ex_zero_decimal_transfer) = Fin 0 \<and>
   parseInt (tx_value ex_zero_decimal_transfer) = Fin 5 \<and>
   isIncoming ex_zero_decimal_transfer ex_address \<and>
   js_ge (parseInt (tx_value ex_zero_decimal_transfer)) (minTransferAmount ex_cfg) \<and>
   amount ex_cfg ex_zero_decimal_transfer = fl (5 / 10 ^ 18) \<and>
   js_lt (amount ex_cfg ex_zero_decimal_transfer) (minTransferAmount ex_cfg) \<and>
   formatTransaction ex_cfg ex_world ex_zero_decimal_transfer ex_address = None"
proof -
  have a: "decimals t = Fin 18 \<and> amount cfg t = js_div (parseInt (tx_value t)) (Fin (10 ^ 18))"
    if "parseInt (tokenDecimal t) = NaN \<or> parseInt (tokenDecimal t) = Fin 0"
    using that by (auto simp: decimals_def amount_def js_truthy_num_def pow10_18 simp del: pow10.simps)
  have b: "parseInt (tokenDecimal ex_zero_decimal_transfer) = Fin 0" by code_simp
  have c: "parseInt (tx_value ex_zero_decimal_transfer) = Fin 5" by code_simp
  have d: "isIncoming ex_zero_decimal_transfer ex_address" by code_simp
  have e: "js_ge (parseInt (tx_value ex_zero_decimal_transfer)) (minTransferAmount ex_cfg)"
    by code_simp
  have f: "amount ex_cfg ex_zero_decimal_transfer = fl (5 / 10 ^ 18)" by code_simp
  have g: "js_lt (amount ex_cfg ex_zero_decimal_transfer) (minTransferAmount ex_cfg)" by code_simp
  have h: "formatTransaction ex_cfg ex_world ex_zero_decimal_transfer ex_address = None"
    by code_simp
  from a b c d e f g h show ?thesis by blast
qed

theorem decimals_default_18_witness:
  "parseInt (tokenDecimal ex_zero_decimal_transfer) = Fin 0 \<and>
   decimals ex_zero_decimal_transfer = Fin 18 \<and>
   amount ex_cfg ex_zero_decimal_transfer =
     js_div (parseInt (tx_value ex_zero_decimal_transfer)) (Fin (10 ^ 18)) \<and>
   formatTransaction ex_cfg ex_world ex_zero_decimal_transfer ex_address = None"
  using decimals_default_18 [where t = ex_zero_decimal_transfer and cfg = ex_cfg] by simp

end
